theory Spec2Isabelle
  imports Complex_Main "HOL-Library.Word"
begin

section \<open>Errors and arrays\<close>

text \<open>
  The Python exceptions that \<^verbatim>\<open>attention.py\<close> and the array operations it calls can raise.
  Every \<^verbatim>\<open>raise\<close> and every failing \<^verbatim>\<open>assert\<close> of the source is an \<open>Inl\<close> branch of the
  model.
\<close>

datatype error =
    AssertionError string
  | ValueError string
  | IndexError string
  | TypeError string
  | AttributeError string
  | ZeroDivisionError

text \<open>
  A \<^verbatim>\<open>jax.Array\<close> is its shape together with its elements, read by multi-index. Only the
  elements at indices inside the shape (\<open>in_bounds\<close>) belong to the array. Floating-point
  elements are modelled as real numbers: rounding, overflow and NaN of the concrete dtypes are
  not part of this model, and a cast between floating dtypes (\<^verbatim>\<open>astype\<close>, \<^verbatim>\<open>promote_dtype\<close>)
  is the identity. A boolean array is used through its truth values; where the source casts
  it to a numeric dtype, \<open>True\<close> becomes 1 and \<open>False\<close> becomes 0, and a numeric mask counts
  as \<open>True\<close> where it is nonzero.
\<close>

record 'a ndarray =
  shape :: "nat list"
  elem :: "nat list \<Rightarrow> 'a"

definition ndim :: "'a ndarray \<Rightarrow> nat" where
  "ndim a = length (shape a)"

definition in_bounds :: "nat list \<Rightarrow> nat list \<Rightarrow> bool" where
  "in_bounds idx s = list_all2 (<) idx s"

definition astype :: "('a \<Rightarrow> 'b) \<Rightarrow> 'a ndarray \<Rightarrow> 'b ndarray" where
  "astype cast a = \<lparr>shape = shape a, elem = (\<lambda>idx. cast (elem a idx))\<rparr>"

definition zeros :: "nat list \<Rightarrow> real ndarray" where
  "zeros s = \<lparr>shape = s, elem = (\<lambda>idx. 0)\<rparr>"

text \<open>\<^verbatim>\<open>jnp.arange(n)\<close>: the one-dimensional array 0, 1, ..., n - 1.\<close>

definition arange :: "nat \<Rightarrow> int ndarray" where
  "arange n = \<lparr>shape = [n], elem = (\<lambda>idx. int (last idx))\<rparr>"

subsection \<open>Broadcasting\<close>

text \<open>
  The NumPy rule: the shorter shape is padded with ones on the left; two dimensions are
  compatible when they are equal or one of them is 1.
\<close>

definition pad_left :: "nat \<Rightarrow> nat list \<Rightarrow> nat list" where
  "pad_left n s = replicate (n - length s) 1 @ s"

definition broadcast_shapes :: "nat list \<Rightarrow> nat list \<Rightarrow> nat list option" where
  "broadcast_shapes s t =
     (let n = max (length s) (length t); s' = pad_left n s; t' = pad_left n t
      in if list_all2 (\<lambda>x y. x = y \<or> x = 1 \<or> y = 1) s' t'
         then Some (map2 (\<lambda>x y. if x = 1 then y else x) s' t')
         else None)"

text \<open>
  The index at which an operand of shape \<open>s\<close> is read for the index \<open>idx\<close> of the broadcast
  result: its own trailing axes, and 0 along an axis of size 1.
\<close>

definition bc_index :: "nat list \<Rightarrow> nat list \<Rightarrow> nat list" where
  "bc_index s idx = map2 (\<lambda>d i. if d = 1 then 0 else i) s (drop (length idx - length s) idx)"

definition broadcast_binary ::
  "('a \<Rightarrow> 'b \<Rightarrow> 'c) \<Rightarrow> 'a ndarray \<Rightarrow> 'b ndarray \<Rightarrow> error + 'c ndarray" where
  "broadcast_binary f a b =
     (case broadcast_shapes (shape a) (shape b) of
        None \<Rightarrow> Inl (ValueError ''Incompatible shapes for broadcasting'')
      | Some r \<Rightarrow>
          Inr \<lparr>shape = r,
               elem = (\<lambda>idx. f (elem a (bc_index (shape a) idx)) (elem b (bc_index (shape b) idx)))\<rparr>)"

definition broadcast_to :: "'a ndarray \<Rightarrow> nat list \<Rightarrow> error + 'a ndarray" where
  "broadcast_to a s =
     (if broadcast_shapes (shape a) s = Some s
      then Inr \<lparr>shape = s, elem = (\<lambda>idx. elem a (bc_index (shape a) idx))\<rparr>
      else Inl (ValueError ''Incompatible shapes for broadcasting''))"

text \<open>
  \<^verbatim>\<open>jnp.expand_dims(a, axis)\<close> for one axis. \<open>expand_dims_at\<close> inserts the axis of size 1 at
  position \<open>p\<close> of the result; \<open>expand_dims_neg a k\<close> is the call with \<^verbatim>\<open>axis = -k\<close>, which
  counts from the end of the result's shape and raises when it is out of range.
  \<open>expand_dims_leading a n\<close> is the call with \<^verbatim>\<open>axis = tuple(range(n))\<close>.
\<close>

definition expand_dims_at :: "'a ndarray \<Rightarrow> nat \<Rightarrow> 'a ndarray" where
  "expand_dims_at a p =
     \<lparr>shape = take p (shape a) @ [1] @ drop p (shape a),
      elem = (\<lambda>idx. elem a (take p idx @ drop (Suc p) idx))\<rparr>"

definition expand_dims_neg :: "'a ndarray \<Rightarrow> nat \<Rightarrow> error + 'a ndarray" where
  "expand_dims_neg a k =
     (if k = 0 \<or> ndim a + 1 < k
      then Inl (ValueError ''axis is out of bounds for array'')
      else Inr (expand_dims_at a (ndim a + 1 - k)))"

definition expand_dims_leading :: "'a ndarray \<Rightarrow> nat \<Rightarrow> 'a ndarray" where
  "expand_dims_leading a n =
     \<lparr>shape = replicate n 1 @ shape a, elem = (\<lambda>idx. elem a (drop n idx))\<rparr>"

section \<open>Mask utilities\<close>

text \<open>
  \<^verbatim>\<open>make_attention_mask(query_input, key_input, pairwise_fn, extra_batch_dims, dtype)\<close>.
  \<open>pairwise_fn\<close> is the broadcasting elementwise function of the caller; \<open>cast\<close> is the final
  \<^verbatim>\<open>astype(dtype)\<close>.
\<close>

definition make_attention_mask ::
  "'a ndarray \<Rightarrow> 'a ndarray \<Rightarrow> ('a ndarray \<Rightarrow> 'a ndarray \<Rightarrow> error + 'b ndarray) \<Rightarrow> nat \<Rightarrow>
   ('b \<Rightarrow> real) \<Rightarrow> error + real ndarray" where
  "make_attention_mask query_input key_input pairwise_fn extra_batch_dims cast =
     (case expand_dims_neg query_input 1 of Inl e \<Rightarrow> Inl e | Inr q1 \<Rightarrow>
      case expand_dims_neg key_input 2 of Inl e \<Rightarrow> Inl e | Inr k1 \<Rightarrow>
      case pairwise_fn q1 k1 of Inl e \<Rightarrow> Inl e | Inr m \<Rightarrow>
      case expand_dims_neg m 3 of Inl e \<Rightarrow> Inl e | Inr mask1 \<Rightarrow>
        Inr (astype cast (expand_dims_leading mask1 extra_batch_dims)))"

text \<open>The two pairwise functions the source names: \<^verbatim>\<open>jnp.multiply\<close> and \<^verbatim>\<open>jnp.greater_equal\<close>.\<close>

definition multiply :: "real ndarray \<Rightarrow> real ndarray \<Rightarrow> error + real ndarray" where
  "multiply = broadcast_binary (*)"

definition greater_equal :: "int ndarray \<Rightarrow> int ndarray \<Rightarrow> error + bool ndarray" where
  "greater_equal = broadcast_binary (\<lambda>a b. b \<le> a)"

text \<open>
  \<^verbatim>\<open>make_causal_mask(x, extra_batch_dims, dtype)\<close>. \<^verbatim>\<open>x.shape[-1]\<close> raises on a
  zero-dimensional \<open>x\<close>.
\<close>

definition make_causal_mask :: "'a ndarray \<Rightarrow> nat \<Rightarrow> error + real ndarray" where
  "make_causal_mask x extra_batch_dims =
     (if shape x = [] then Inl (IndexError ''tuple index out of range'')
      else case broadcast_to (arange (last (shape x))) (shape x) of Inl e \<Rightarrow> Inl e | Inr idxs \<Rightarrow>
        make_attention_mask idxs idxs greater_equal extra_batch_dims of_bool)"

text \<open>
  \<^verbatim>\<open>combine_masks(*masks, dtype)\<close>. The arguments are optional masks; the result is \<open>None\<close>
  when none is given. \<^verbatim>\<open>jnp.logical_and\<close> broadcasts and reads a number as \<open>True\<close> when it is
  nonzero; the loop of the source is \<open>logical_and_all\<close>.
\<close>

definition logical_and :: "real ndarray \<Rightarrow> real ndarray \<Rightarrow> error + real ndarray" where
  "logical_and = broadcast_binary (\<lambda>a b. of_bool (a \<noteq> 0 \<and> b \<noteq> 0))"

fun logical_and_all :: "real ndarray \<Rightarrow> real ndarray list \<Rightarrow> error + real ndarray" where
  "logical_and_all m [] = Inr m"
| "logical_and_all m (other_mask # other_masks) =
     (case logical_and m other_mask of
        Inl e \<Rightarrow> Inl e
      | Inr m' \<Rightarrow> logical_and_all m' other_masks)"

definition combine_masks :: "real ndarray option list \<Rightarrow> error + real ndarray option" where
  "combine_masks masks =
     (case List.map_filter id masks of
        [] \<Rightarrow> Inr None
      | m # other_masks \<Rightarrow>
          if \<not> list_all (\<lambda>x. ndim x = ndim m) (m # other_masks)
          then Inl (AssertionError ''masks must have same rank'')
          else map_sum id Some (logical_and_all m other_masks))"

section \<open>Attention weights\<close>

text \<open>
  \<^verbatim>\<open>jnp.einsum('...qhd,...khd->...hqk', query, key)\<close>, called once the assertions of the
  source have made the batch dimensions, the head count and the depth of the two operands
  equal: the entry at batch \<open>b\<close>, head \<open>h\<close>, query position \<open>q\<close> and key position \<open>k\<close> is the
  dot product of \<open>query[b, q, h, :]\<close> and \<open>key[b, k, h, :]\<close>.
\<close>

definition einsum_qk :: "real ndarray \<Rightarrow> real ndarray \<Rightarrow> real ndarray" where
  "einsum_qk query key =
     (let n = ndim query - 3;
          batch = take n (shape query);
          q_length = shape query ! n;
          num_heads = shape query ! (n + 1);
          depth = shape query ! (n + 2);
          kv_length = shape key ! n
      in \<lparr>shape = batch @ [num_heads, q_length, kv_length],
          elem = (\<lambda>idx.
            let b = take n idx; h = idx ! n; q = idx ! (n + 1); k = idx ! (n + 2)
            in (\<Sum>d\<leftarrow>[0..<depth]. elem query (b @ [q, h, d]) * elem key (b @ [k, h, d])))\<rparr>)"

text \<open>
  \<^verbatim>\<open>jax.nn.softmax(x)\<close> over the last axis: in every row the row maximum is subtracted, the
  differences are exponentiated and divided by their sum. The maximum over an axis of size 0
  has no identity, and \<^verbatim>\<open>jnp.max\<close> raises there.
\<close>

definition row_of :: "'a ndarray \<Rightarrow> nat list \<Rightarrow> 'a list" where
  "row_of x idx = map (\<lambda>j. elem x (butlast idx @ [j])) [0..<last (shape x)]"

definition softmax :: "real ndarray \<Rightarrow> error + real ndarray" where
  "softmax x =
     (if shape x = [] \<or> last (shape x) = 0
      then Inl (ValueError ''zero-size array to reduction operation max which has no identity'')
      else Inr \<lparr>shape = shape x,
                elem = (\<lambda>idx.
                  let row = row_of x idx; x_max = Max (set row)
                  in exp (elem x idx - x_max) / (\<Sum>v\<leftarrow>row. exp (v - x_max)))\<rparr>)"

text \<open>
  The dropout of the source. \<open>bernoulli\<close> stands for \<^verbatim>\<open>jax.random.bernoulli\<close>, which needs a
  key: \<open>bernoulli rng p s\<close> is the boolean array of shape \<open>s\<close> it draws.
\<close>

definition dropout ::
  "('k \<Rightarrow> real \<Rightarrow> nat list \<Rightarrow> bool ndarray) \<Rightarrow> real ndarray \<Rightarrow> real ndarray \<Rightarrow> bool \<Rightarrow>
   'k option \<Rightarrow> real \<Rightarrow> error + real ndarray" where
  "dropout bernoulli key attn_weights broadcast_dropout dropout_rng dropout_rate =
     (let keep_prob = 1 - dropout_rate;
          dropout_shape =
            (if broadcast_dropout
             then replicate (ndim key - 2) 1 @ drop (ndim attn_weights - 2) (shape attn_weights)
             else shape attn_weights)
      in case dropout_rng of
           None \<Rightarrow> Inl (TypeError ''bernoulli requires a key'')
         | Some rng \<Rightarrow>
             let keep = bernoulli rng keep_prob dropout_shape;
                 multiplier = astype (\<lambda>b. of_bool b / keep_prob) keep
             in broadcast_binary (*) attn_weights multiplier)"

text \<open>
  The scores of the source before normalisation. \<open>big_neg\<close> is \<^verbatim>\<open>jnp.finfo(dtype).min\<close> for
  the working dtype that \<^verbatim>\<open>promote_dtype\<close> fixes. \<open>attention_scores\<close> is the value of
  \<^verbatim>\<open>attn_weights\<close> after the bias has been added, \<open>masked_scores\<close> its value after
  \<^verbatim>\<open>jnp.where(mask, attn_weights, big_neg)\<close>.
\<close>

definition attention_scores ::
  "real ndarray \<Rightarrow> real ndarray \<Rightarrow> real ndarray option \<Rightarrow> error + real ndarray" where
  "attention_scores query key bias =
     (if ndim query \<noteq> ndim key then Inl (AssertionError ''q, k must have same rank.'')
      else if take (ndim query - 3) (shape query) \<noteq> take (ndim key - 3) (shape key)
      then Inl (AssertionError ''q, k batch dims must match.'')
      else if ndim query < 2 then Inl (IndexError ''tuple index out of range'')
      else if shape query ! (ndim query - 2) \<noteq> shape key ! (ndim key - 2)
      then Inl (AssertionError ''q, k num_heads must match.'')
      else if last (shape query) \<noteq> last (shape key)
      then Inl (AssertionError ''q, k depths must match.'')
      else if ndim query < 3
      then Inl (ValueError ''einsum: operand has fewer dimensions than subscripts'')
      else
        let depth = last (shape query);
            query' = astype (\<lambda>v. v / sqrt (real depth)) query;
            attn_weights = einsum_qk query' key
        in case bias of
             None \<Rightarrow> Inr attn_weights
           | Some b \<Rightarrow> broadcast_binary (+) attn_weights b)"

definition masked_scores ::
  "real \<Rightarrow> real ndarray \<Rightarrow> real ndarray \<Rightarrow> real ndarray option \<Rightarrow> real ndarray option \<Rightarrow>
   error + real ndarray" where
  "masked_scores big_neg query key bias msk =
     (case attention_scores query key bias of
        Inl e \<Rightarrow> Inl e
      | Inr attn_weights \<Rightarrow>
          (case msk of
             None \<Rightarrow> Inr attn_weights
           | Some m \<Rightarrow> broadcast_binary (\<lambda>c v. if c \<noteq> 0 then v else big_neg) m attn_weights))"

definition dot_product_attention_weights ::
  "('k \<Rightarrow> real \<Rightarrow> nat list \<Rightarrow> bool ndarray) \<Rightarrow> real \<Rightarrow> real ndarray \<Rightarrow> real ndarray \<Rightarrow>
   real ndarray option \<Rightarrow> real ndarray option \<Rightarrow> bool \<Rightarrow> 'k option \<Rightarrow> real \<Rightarrow> bool \<Rightarrow>
   error + real ndarray" where
  "dot_product_attention_weights bernoulli big_neg query key bias msk broadcast_dropout
     dropout_rng dropout_rate deterministic =
     (case masked_scores big_neg query key bias msk of
        Inl e \<Rightarrow> Inl e
      | Inr scores \<Rightarrow>
          (case softmax scores of
             Inl e \<Rightarrow> Inl e
           | Inr attn_weights \<Rightarrow>
               if \<not> deterministic \<and> dropout_rate > 0
               then dropout bernoulli key attn_weights broadcast_dropout dropout_rng dropout_rate
               else Inr attn_weights))"

section \<open>Attention weights over floating-point values\<close>

text \<open>
  The definitions of the previous section compute over the real numbers. They give the values
  of the source, up to rounding, as long as every intermediate value stays inside the finite
  range of the working dtype. The arrays of the source hold floating-point values, and their
  arithmetic leaves that range: a sum or product beyond the largest finite value is an
  infinity, and the difference of two equal infinities is not a number. This section repeats
  the computation of \<open>dot_product_attention_weights\<close> over such values.

  A value is a finite real, one of the two infinities or NaN. \<open>fmax\<close> is the largest finite
  value of the working dtype, so that \<^verbatim>\<open>jnp.finfo(dtype).min\<close> is \<open>- fmax\<close>. Rounding and the sign
  of zero are not modelled: a result inside the finite range is the exact real.
\<close>

datatype fl = Fin real | PInf | NInf | NaN

text \<open>The value of an operation whose exact result is \<open>x\<close>.\<close>

definition overflow :: "real \<Rightarrow> real \<Rightarrow> fl" where
  "overflow fmax x = (if fmax < x then PInf else if x < - fmax then NInf else Fin x)"

fun is_fin :: "fl \<Rightarrow> bool" where
  "is_fin (Fin a) = True"
| "is_fin x = False"

fun fl_real :: "fl \<Rightarrow> real" where
  "fl_real (Fin a) = a"
| "fl_real x = 0"

fun fl_negative :: "fl \<Rightarrow> bool" where
  "fl_negative (Fin a) = (a < 0)"
| "fl_negative NInf = True"
| "fl_negative x = False"

text \<open>
  The truth value of a mask entry as \<^verbatim>\<open>jnp.where\<close> reads it: every value other than zero is
  true.
\<close>

definition fl_true :: "fl \<Rightarrow> bool" where
  "fl_true c = (c \<noteq> Fin 0)"

text \<open>
  Negation, addition, subtraction, multiplication, division, the exponential and the maximum
  of two values. NaN propagates through all of them; opposite infinities add up to NaN, zero
  times an infinity and the quotients 0 / 0 and of two infinities are NaN.
\<close>

fun fl_neg :: "fl \<Rightarrow> fl" where
  "fl_neg (Fin a) = Fin (- a)"
| "fl_neg PInf = NInf"
| "fl_neg NInf = PInf"
| "fl_neg NaN = NaN"

fun fl_add :: "real \<Rightarrow> fl \<Rightarrow> fl \<Rightarrow> fl" where
  "fl_add fmax (Fin a) (Fin b) = overflow fmax (a + b)"
| "fl_add fmax NaN y = NaN"
| "fl_add fmax x NaN = NaN"
| "fl_add fmax PInf NInf = NaN"
| "fl_add fmax NInf PInf = NaN"
| "fl_add fmax PInf y = PInf"
| "fl_add fmax x PInf = PInf"
| "fl_add fmax NInf y = NInf"
| "fl_add fmax x NInf = NInf"

definition fl_sub :: "real \<Rightarrow> fl \<Rightarrow> fl \<Rightarrow> fl" where
  "fl_sub fmax x y = fl_add fmax x (fl_neg y)"

fun fl_mul :: "real \<Rightarrow> fl \<Rightarrow> fl \<Rightarrow> fl" where
  "fl_mul fmax (Fin a) (Fin b) = overflow fmax (a * b)"
| "fl_mul fmax NaN y = NaN"
| "fl_mul fmax x NaN = NaN"
| "fl_mul fmax x y =
     (if x = Fin 0 \<or> y = Fin 0 then NaN
      else if fl_negative x = fl_negative y then PInf else NInf)"

fun fl_div :: "real \<Rightarrow> fl \<Rightarrow> fl \<Rightarrow> fl" where
  "fl_div fmax (Fin a) (Fin b) =
     (if b = 0 then (if a = 0 then NaN else if 0 < a then PInf else NInf)
      else overflow fmax (a / b))"
| "fl_div fmax NaN y = NaN"
| "fl_div fmax x NaN = NaN"
| "fl_div fmax (Fin a) y = Fin 0"
| "fl_div fmax x (Fin b) = (if fl_negative x = (b < 0) then PInf else NInf)"
| "fl_div fmax x y = NaN"

fun fl_exp :: "real \<Rightarrow> fl \<Rightarrow> fl" where
  "fl_exp fmax (Fin a) = overflow fmax (exp a)"
| "fl_exp fmax PInf = PInf"
| "fl_exp fmax NInf = Fin 0"
| "fl_exp fmax NaN = NaN"

fun fl_max :: "fl \<Rightarrow> fl \<Rightarrow> fl" where
  "fl_max (Fin a) (Fin b) = Fin (max a b)"
| "fl_max NaN y = NaN"
| "fl_max x NaN = NaN"
| "fl_max PInf y = PInf"
| "fl_max x PInf = PInf"
| "fl_max NInf y = y"
| "fl_max x NInf = x"

text \<open>
  \<^verbatim>\<open>jnp.sum\<close> and \<^verbatim>\<open>jnp.max\<close> over a row. The sum accumulates from the left, starting at 0;
  the maximum is taken of non-empty rows only.
\<close>

definition fl_sum :: "real \<Rightarrow> fl list \<Rightarrow> fl" where
  "fl_sum fmax xs = foldl (fl_add fmax) (Fin 0) xs"

definition fl_max_list :: "fl list \<Rightarrow> fl" where
  "fl_max_list xs = foldl fl_max (hd xs) (tl xs)"

text \<open>
  \<^verbatim>\<open>jnp.einsum('...qhd,...khd->...hqk', query, key)\<close>, \<^verbatim>\<open>jax.nn.softmax\<close>, the dropout and the
  scores of the source, as \<open>einsum_qk\<close>, \<open>softmax\<close>, \<open>dropout\<close>, \<open>attention_scores\<close> and
  \<open>masked_scores\<close> above, with the operations on floating-point values. The query is divided
  by \<^verbatim>\<open>jnp.sqrt(depth)\<close> before the contraction, and a masked score is replaced by \<open>- fmax\<close>.
\<close>

definition einsum_qk_float :: "real \<Rightarrow> fl ndarray \<Rightarrow> fl ndarray \<Rightarrow> fl ndarray" where
  "einsum_qk_float fmax query key =
     (let n = ndim query - 3;
          batch = take n (shape query);
          q_length = shape query ! n;
          num_heads = shape query ! (n + 1);
          depth = shape query ! (n + 2);
          kv_length = shape key ! n
      in \<lparr>shape = batch @ [num_heads, q_length, kv_length],
          elem = (\<lambda>idx.
            let b = take n idx; h = idx ! n; q = idx ! (n + 1); k = idx ! (n + 2)
            in fl_sum fmax
                 (map (\<lambda>d. fl_mul fmax (elem query (b @ [q, h, d])) (elem key (b @ [k, h, d])))
                    [0..<depth]))\<rparr>)"

definition softmax_float :: "real \<Rightarrow> fl ndarray \<Rightarrow> error + fl ndarray" where
  "softmax_float fmax x =
     (if shape x = [] \<or> last (shape x) = 0
      then Inl (ValueError ''zero-size array to reduction operation max which has no identity'')
      else Inr \<lparr>shape = shape x,
                elem = (\<lambda>idx.
                  let row = row_of x idx; x_max = fl_max_list row
                  in fl_div fmax (fl_exp fmax (fl_sub fmax (elem x idx) x_max))
                       (fl_sum fmax (map (\<lambda>v. fl_exp fmax (fl_sub fmax v x_max)) row)))\<rparr>)"

definition dropout_float ::
  "('k \<Rightarrow> real \<Rightarrow> nat list \<Rightarrow> bool ndarray) \<Rightarrow> real \<Rightarrow> fl ndarray \<Rightarrow> fl ndarray \<Rightarrow> bool \<Rightarrow>
   'k option \<Rightarrow> real \<Rightarrow> error + fl ndarray" where
  "dropout_float bernoulli fmax key attn_weights broadcast_dropout dropout_rng dropout_rate =
     (let keep_prob = 1 - dropout_rate;
          dropout_shape =
            (if broadcast_dropout
             then replicate (ndim key - 2) 1 @ drop (ndim attn_weights - 2) (shape attn_weights)
             else shape attn_weights)
      in case dropout_rng of
           None \<Rightarrow> Inl (TypeError ''bernoulli requires a key'')
         | Some rng \<Rightarrow>
             let keep = bernoulli rng keep_prob dropout_shape;
                 multiplier = astype (\<lambda>b. fl_div fmax (Fin (of_bool b)) (Fin keep_prob)) keep
             in broadcast_binary (fl_mul fmax) attn_weights multiplier)"

definition attention_scores_float ::
  "real \<Rightarrow> fl ndarray \<Rightarrow> fl ndarray \<Rightarrow> fl ndarray option \<Rightarrow> error + fl ndarray" where
  "attention_scores_float fmax query key bias =
     (if ndim query \<noteq> ndim key then Inl (AssertionError ''q, k must have same rank.'')
      else if take (ndim query - 3) (shape query) \<noteq> take (ndim key - 3) (shape key)
      then Inl (AssertionError ''q, k batch dims must match.'')
      else if ndim query < 2 then Inl (IndexError ''tuple index out of range'')
      else if shape query ! (ndim query - 2) \<noteq> shape key ! (ndim key - 2)
      then Inl (AssertionError ''q, k num_heads must match.'')
      else if last (shape query) \<noteq> last (shape key)
      then Inl (AssertionError ''q, k depths must match.'')
      else if ndim query < 3
      then Inl (ValueError ''einsum: operand has fewer dimensions than subscripts'')
      else
        let depth = last (shape query);
            query' = astype (\<lambda>v. fl_div fmax v (Fin (sqrt (real depth)))) query;
            attn_weights = einsum_qk_float fmax query' key
        in case bias of
             None \<Rightarrow> Inr attn_weights
           | Some b \<Rightarrow> broadcast_binary (fl_add fmax) attn_weights b)"

definition masked_scores_float ::
  "real \<Rightarrow> fl ndarray \<Rightarrow> fl ndarray \<Rightarrow> fl ndarray option \<Rightarrow> fl ndarray option \<Rightarrow>
   error + fl ndarray" where
  "masked_scores_float fmax query key bias msk =
     (case attention_scores_float fmax query key bias of
        Inl e \<Rightarrow> Inl e
      | Inr attn_weights \<Rightarrow>
          (case msk of
             None \<Rightarrow> Inr attn_weights
           | Some m \<Rightarrow>
               broadcast_binary (\<lambda>c v. if fl_true c then v else Fin (- fmax)) m attn_weights))"

text \<open>\<^verbatim>\<open>dot_product_attention_weights\<close> over floating-point values.\<close>

definition dot_product_attention_weights_float ::
  "('k \<Rightarrow> real \<Rightarrow> nat list \<Rightarrow> bool ndarray) \<Rightarrow> real \<Rightarrow> fl ndarray \<Rightarrow> fl ndarray \<Rightarrow>
   fl ndarray option \<Rightarrow> fl ndarray option \<Rightarrow> bool \<Rightarrow> 'k option \<Rightarrow> real \<Rightarrow> bool \<Rightarrow>
   error + fl ndarray" where
  "dot_product_attention_weights_float bernoulli fmax query key bias msk broadcast_dropout
     dropout_rng dropout_rate deterministic =
     (case masked_scores_float fmax query key bias msk of
        Inl e \<Rightarrow> Inl e
      | Inr scores \<Rightarrow>
          (case softmax_float fmax scores of
             Inl e \<Rightarrow> Inl e
           | Inr attn_weights \<Rightarrow>
               if \<not> deterministic \<and> dropout_rate > 0
               then dropout_float bernoulli fmax key attn_weights broadcast_dropout dropout_rng
                      dropout_rate
               else Inr attn_weights))"

text \<open>
  The value of \<^verbatim>\<open>exp(x - x_max)\<close> for finite \<open>x \<le> x_max\<close>: the difference can leave the finite
  range downwards, and its exponential is then 0.
\<close>

definition unnormalized :: "real \<Rightarrow> real \<Rightarrow> real \<Rightarrow> real" where
  "unnormalized fmax x x_max = (if x - x_max < - fmax then 0 else exp (x - x_max))"

section \<open>Attention\<close>

text \<open>
  \<^verbatim>\<open>jnp.einsum('...hqk,...khd->...qhd', attn_weights, value)\<close>. A bias or mask can have
  broadcast the weights to more than \<^verbatim>\<open>[batch..., num_heads, q_length, kv_length]\<close>, so the
  batch axes, \<open>h\<close> and \<open>k\<close> of the two operands are broadcast against each other.
\<close>

definition einsum_av :: "real ndarray \<Rightarrow> real ndarray \<Rightarrow> error + real ndarray" where
  "einsum_av attn_weights value =
     (let n = ndim attn_weights - 3;
          m = ndim value - 3;
          h1 = shape attn_weights ! n;
          q_length = shape attn_weights ! (n + 1);
          k1 = shape attn_weights ! (n + 2);
          k2 = shape value ! m;
          h2 = shape value ! (m + 1);
          depth = shape value ! (m + 2)
      in case broadcast_shapes (take n (shape attn_weights) @ [h1, k1])
                (take m (shape value) @ [h2, k2]) of
           None \<Rightarrow> Inl (ValueError ''einsum: incompatible shapes for broadcasting'')
         | Some bhk \<Rightarrow>
             let r = length bhk - 2; num_heads = bhk ! r; kv_length = bhk ! (r + 1)
             in Inr \<lparr>shape = take r bhk @ [q_length, num_heads, depth],
                     elem = (\<lambda>idx.
                       let b = take r idx; q = idx ! r; h = idx ! (r + 1); d = idx ! (r + 2)
                       in (\<Sum>k\<leftarrow>[0..<kv_length].
                            elem attn_weights (bc_index (shape attn_weights) (b @ [h, q, k])) *
                            elem value (bc_index (shape value) (b @ [k, h, d]))))\<rparr>)"

definition dot_product_attention ::
  "('k \<Rightarrow> real \<Rightarrow> nat list \<Rightarrow> bool ndarray) \<Rightarrow> real \<Rightarrow> real ndarray \<Rightarrow> real ndarray \<Rightarrow>
   real ndarray \<Rightarrow> real ndarray option \<Rightarrow> real ndarray option \<Rightarrow> bool \<Rightarrow> 'k option \<Rightarrow> real \<Rightarrow>
   bool \<Rightarrow> error + real ndarray" where
  "dot_product_attention bernoulli big_neg query key value bias msk broadcast_dropout
     dropout_rng dropout_rate deterministic =
     (if ndim key \<noteq> ndim query then Inl (AssertionError ''q, k, v must have same rank.'')
      else if ndim query \<noteq> ndim value then Inl (AssertionError ''q, k, v must have same rank.'')
      else if take (ndim query - 3) (shape query) \<noteq> take (ndim key - 3) (shape key)
      then Inl (AssertionError ''q, k, v batch dims must match.'')
      else if take (ndim key - 3) (shape key) \<noteq> take (ndim value - 3) (shape value)
      then Inl (AssertionError ''q, k, v batch dims must match.'')
      else if ndim query < 2 then Inl (IndexError ''tuple index out of range'')
      else if shape query ! (ndim query - 2) \<noteq> shape key ! (ndim key - 2)
      then Inl (AssertionError ''q, k, v num_heads must match.'')
      else if shape key ! (ndim key - 2) \<noteq> shape value ! (ndim value - 2)
      then Inl (AssertionError ''q, k, v num_heads must match.'')
      else if ndim key < 3 then Inl (IndexError ''tuple index out of range'')
      else if shape key ! (ndim key - 3) \<noteq> shape value ! (ndim value - 3)
      then Inl (AssertionError ''k, v lengths must match.'')
      else
        case dot_product_attention_weights bernoulli big_neg query key bias msk
               broadcast_dropout dropout_rng dropout_rate deterministic of
          Inl e \<Rightarrow> Inl e
        | Inr attn_weights \<Rightarrow> einsum_av attn_weights value)"

section \<open>The multi-head attention module\<close>

text \<open>
  The autoregressive cache: the three attributes that \<^verbatim>\<open>init_cache\<close> creates together.
  \<^verbatim>\<open>cache_index\<close> is a scalar \<^verbatim>\<open>int32\<close> array, so its increment wraps.
\<close>

record cache =
  cached_key :: "real ndarray"
  cached_value :: "real ndarray"
  cache_index :: "32 word"

text \<open>
  The interface of \<^verbatim>\<open>attention_fn\<close> as the module calls it: query, key, value, then the
  keyword arguments \<^verbatim>\<open>mask\<close>, \<^verbatim>\<open>dropout_rng\<close>, \<^verbatim>\<open>dropout_rate\<close>, \<^verbatim>\<open>broadcast_dropout\<close> and
  \<^verbatim>\<open>deterministic\<close>.
\<close>

type_synonym 'k attention_fn =
  "real ndarray \<Rightarrow> real ndarray \<Rightarrow> real ndarray \<Rightarrow> real ndarray option \<Rightarrow> 'k option \<Rightarrow> real \<Rightarrow>
   bool \<Rightarrow> bool \<Rightarrow> error + real ndarray"

type_synonym layer = "real ndarray \<Rightarrow> error + real ndarray"

text \<open>
  The attributes of a \<^verbatim>\<open>MultiHeadAttention\<close> object that \<^verbatim>\<open>__call__\<close> and \<^verbatim>\<open>init_cache\<close>
  read or write. The sublayers \<^verbatim>\<open>self.query\<close>, \<^verbatim>\<open>self.key\<close>, \<^verbatim>\<open>self.value\<close>, \<^verbatim>\<open>self.out\<close>
  (\<^verbatim>\<open>LinearGeneral\<close>) and \<^verbatim>\<open>self.query_ln\<close>, \<^verbatim>\<open>self.key_ln\<close> (\<^verbatim>\<open>LayerNorm\<close>) come from other
  files: they are the fields \<open>query_proj\<close>, \<open>key_proj\<close>, \<open>value_proj\<close>, \<open>out_proj\<close>,
  \<open>query_ln\<close> and \<open>key_ln\<close>, functions that may raise. \<open>cache\<close> is \<open>None\<close> until \<^verbatim>\<open>init_cache\<close>
  has run, when the three cache attributes do not exist yet.
\<close>

record 'k MultiHeadAttention =
  num_heads :: nat
  features_in :: nat
  features_out :: nat
  broadcast_dropout :: bool
  dropout_rate :: real
  deterministic :: "bool option"
  attention_fn :: "'k attention_fn"
  decode :: bool
  normalize_qk :: bool
  head_dim :: nat
  query_proj :: layer
  key_proj :: layer
  value_proj :: layer
  query_ln :: "layer option"
  key_ln :: "layer option"
  out_proj :: layer
  cache :: "cache option"

text \<open>
  \<^verbatim>\<open>__init__\<close>. The sublayers it builds are passed in; the two layer norms are kept only when
  \<^verbatim>\<open>normalize_qk\<close> is set. No cache attribute is created here.
\<close>

definition MultiHeadAttention_init ::
  "nat \<Rightarrow> nat \<Rightarrow> nat option \<Rightarrow> bool \<Rightarrow> real \<Rightarrow> bool option \<Rightarrow> 'k attention_fn \<Rightarrow> bool \<Rightarrow> bool \<Rightarrow>
   layer \<Rightarrow> layer \<Rightarrow> layer \<Rightarrow> layer \<Rightarrow> layer \<Rightarrow> layer \<Rightarrow> error + 'k MultiHeadAttention" where
  "MultiHeadAttention_init n_heads f_in out_features bc_dropout rate det att_fn dec norm_qk
     q_layer k_layer v_layer q_norm k_norm o_layer =
     (let f_out = (case out_features of None \<Rightarrow> f_in | Some f \<Rightarrow> f)
      in if n_heads = 0 then Inl ZeroDivisionError
         else if f_out mod n_heads \<noteq> 0
         then Inl (ValueError ''features_out must be divisible by num_heads heads.'')
         else Inr \<lparr>num_heads = n_heads, features_in = f_in, features_out = f_out,
                   broadcast_dropout = bc_dropout, dropout_rate = rate, deterministic = det,
                   attention_fn = att_fn, decode = dec, normalize_qk = norm_qk,
                   head_dim = f_out div n_heads,
                   query_proj = q_layer, key_proj = k_layer, value_proj = v_layer,
                   query_ln = (if norm_qk then Some q_norm else None),
                   key_ln = (if norm_qk then Some k_norm else None),
                   out_proj = o_layer, cache = None\<rparr>)"

text \<open>\<^verbatim>\<open>init_cache(input_shape, dtype)\<close>; \<^verbatim>\<open>input_shape[:-1]\<close> of the empty tuple is empty.\<close>

definition init_cache :: "'k MultiHeadAttention \<Rightarrow> nat list \<Rightarrow> 'k MultiHeadAttention" where
  "init_cache self input_shape =
     (let cache_shape = butlast input_shape @ [num_heads self, features_out self]
      in self\<lparr>cache := Some \<lparr>cached_key = zeros cache_shape,
                              cached_value = zeros cache_shape,
                              cache_index = 0\<rparr>\<rparr>)"

text \<open>
  \<^verbatim>\<open>lax.dynamic_update_slice(operand, update, start_indices)\<close>: the update must have the rank
  of the operand and fit into it; a negative start index counts from the end, and every start
  index is then clamped so that the whole update lies inside the operand.
\<close>

definition clamp_start :: "int \<Rightarrow> nat \<Rightarrow> nat \<Rightarrow> nat" where
  "clamp_start i d u = nat (max 0 (min (if i < 0 then i + int d else i) (int d - int u)))"

definition in_window :: "nat list \<Rightarrow> nat list \<Rightarrow> nat list \<Rightarrow> bool" where
  "in_window idx starts sizes =
     list_all2 (\<lambda>i (s, u). s \<le> i \<and> i < s + u) idx (zip starts sizes)"

definition dynamic_update_slice ::
  "'a ndarray \<Rightarrow> 'a ndarray \<Rightarrow> int list \<Rightarrow> error + 'a ndarray" where
  "dynamic_update_slice operand update start_indices =
     (if length start_indices \<noteq> ndim operand then Inl (TypeError ''dynamic_update_slice: rank'')
      else if ndim update \<noteq> ndim operand then Inl (TypeError ''dynamic_update_slice: rank'')
      else if list_all2 (\<le>) (shape update) (shape operand)
      then
        let starts = map2 (\<lambda>i (d, u). clamp_start i d u) start_indices
                       (zip (shape operand) (shape update))
        in Inr \<lparr>shape = shape operand,
                elem = (\<lambda>idx. if in_window idx starts (shape update)
                                then elem update (map2 (-) idx starts)
                                else elem operand idx)\<rparr>
      else Inl (TypeError ''dynamic_update_slice: update shape must be smaller than operand''))"

text \<open>
  The defaulting of the inputs at the head of \<^verbatim>\<open>__call__\<close>: the pair
  \<^verbatim>\<open>(inputs_k, inputs_v)\<close> after it.
\<close>

definition default_inputs ::
  "real ndarray \<Rightarrow> real ndarray option \<Rightarrow> real ndarray option \<Rightarrow>
   error + (real ndarray \<times> real ndarray)" where
  "default_inputs inputs_q inputs_k inputs_v =
     (case inputs_k of
        None \<Rightarrow>
          (case inputs_v of
             Some v \<Rightarrow> Inl (ValueError ''`inputs_k` cannot be None if `inputs_v` is not None.'')
           | None \<Rightarrow> Inr (inputs_q, inputs_q))
      | Some k \<Rightarrow> Inr (k, (case inputs_v of None \<Rightarrow> k | Some v \<Rightarrow> v)))"

text \<open>
  \<^verbatim>\<open>__call__\<close> up to the decode branch: the input check, the three projections and the
  optional normalisation of query and key.
\<close>

definition project_inputs ::
  "'k MultiHeadAttention \<Rightarrow> real ndarray \<Rightarrow> real ndarray option \<Rightarrow> real ndarray option \<Rightarrow>
   error + (real ndarray \<times> real ndarray \<times> real ndarray)" where
  "project_inputs self inputs_q inputs_k inputs_v =
     (case default_inputs inputs_q inputs_k inputs_v of
        Inl e \<Rightarrow> Inl e
      | Inr (inputs_k', inputs_v') \<Rightarrow>
          if shape inputs_q = [] then Inl (IndexError ''tuple index out of range'')
          else if last (shape inputs_q) \<noteq> features_in self
          then Inl (ValueError ''Incompatible input dimension'')
          else
            case query_proj self inputs_q of Inl e \<Rightarrow> Inl e | Inr query \<Rightarrow>
            case key_proj self inputs_k' of Inl e \<Rightarrow> Inl e | Inr key \<Rightarrow>
            case value_proj self inputs_v' of Inl e \<Rightarrow> Inl e | Inr value \<Rightarrow>
              if normalize_qk self
              then
                case (query_ln self, key_ln self) of
                  (Some q_norm, Some k_norm) \<Rightarrow>
                    (case q_norm query of Inl e \<Rightarrow> Inl e | Inr query' \<Rightarrow>
                     case k_norm key of Inl e \<Rightarrow> Inl e | Inr key' \<Rightarrow>
                       Inr (query', key', value))
                | _ \<Rightarrow> Inl (AssertionError ''query_ln and key_ln must not be None'')
              else Inr (query, key, value))"

text \<open>
  The mask \<^verbatim>\<open>jnp.broadcast_to(jnp.arange(max_length) <= cur_index, ...)\<close> of the decode
  branch, as the numeric array that \<^verbatim>\<open>combine_masks\<close> returns for it.
\<close>

definition decode_causal_mask :: "nat list \<Rightarrow> nat \<Rightarrow> int \<Rightarrow> error + real ndarray" where
  "decode_causal_mask batch_dims max_length cur_index =
     broadcast_to (astype (\<lambda>p. of_bool (p \<le> cur_index)) (arange max_length))
       (batch_dims @ [1, 1, max_length])"

text \<open>
  The decode branch of \<^verbatim>\<open>__call__\<close>. It returns the key, value and mask that go to the
  attention function, together with the cache attributes as they stand when the branch is
  left, by its end or by an exception.
\<close>

definition decode_step ::
  "cache option \<Rightarrow> real ndarray \<Rightarrow> real ndarray \<Rightarrow> real ndarray \<Rightarrow> real ndarray option \<Rightarrow>
   (error + (real ndarray \<times> real ndarray \<times> real ndarray option)) \<times> cache option" where
  "decode_step c query key value msk =
     (case c of
        None \<Rightarrow> (Inl (AttributeError ''cached_key''), c)
      | Some cch \<Rightarrow>
          let s = shape (cached_key cch) in
          if length s < 3 then (Inl (ValueError ''not enough values to unpack''), c)
          else
            let n = length s - 3;
                batch_dims = take n s;
                max_length = s ! n;
                n_heads = s ! (n + 1);
                depth_per_head = s ! (n + 2);
                expected_shape = batch_dims @ [1, n_heads, depth_per_head]
            in if expected_shape \<noteq> shape query
               then (Inl (ValueError ''Autoregressive cache shape error''), c)
               else
                 let cur_index = cache_index cch;
                     indices = replicate n 0 @ [sint cur_index, 0, 0]
                 in case dynamic_update_slice (cached_key cch) key indices of
                      Inl e \<Rightarrow> (Inl e, c)
                    | Inr key' \<Rightarrow>
                        (case dynamic_update_slice (cached_value cch) value indices of
                           Inl e \<Rightarrow> (Inl e, c)
                         | Inr value' \<Rightarrow>
                             let c' = Some \<lparr>cached_key = key', cached_value = value',
                                            cache_index = cur_index + 1\<rparr>
                             in case decode_causal_mask batch_dims max_length (sint cur_index) of
                                  Inl e \<Rightarrow> (Inl e, c')
                                | Inr causal \<Rightarrow>
                                    (case combine_masks [msk, Some causal] of
                                       Inl e \<Rightarrow> (Inl e, c')
                                     | Inr msk' \<Rightarrow> (Inr (key', value', msk'), c'))))"

text \<open>
  Modelled from the spec: \<^verbatim>\<open>first_from\<close> of \<^verbatim>\<open>module.py\<close>, which is not among the sources.
  The first argument that is defined wins; the call fails when none is.
\<close>

definition first_from :: "'a option list \<Rightarrow> error + 'a" where
  "first_from args =
     (case List.map_filter id args of
        [] \<Rightarrow> Inl (ValueError ''No non-None arguments found for deterministic'')
      | x # xs \<Rightarrow> Inr x)"

text \<open>
  The resolution of the determinism flag and of the dropout key. \<open>flag\<close> is the ambient
  \<^verbatim>\<open>flags.get('deterministic')\<close>; \<open>rngs\<close> holds the key that \<^verbatim>\<open>rngs.dropout()\<close> would
  return.
\<close>

definition resolve_deterministic ::
  "'k MultiHeadAttention \<Rightarrow> bool option \<Rightarrow> bool option \<Rightarrow> 'k option \<Rightarrow>
   error + (bool \<times> 'k option)" where
  "resolve_deterministic self flag det rngs =
     (if dropout_rate self > 0
      then
        case first_from [det, deterministic self, flag] of
          Inl e \<Rightarrow> Inl e
        | Inr d \<Rightarrow>
            if d then Inr (d, None)
            else (case rngs of
                    None \<Rightarrow> Inl (ValueError ''rngs must be provided if dropout_rng is not given.'')
                  | Some k \<Rightarrow> Inr (d, Some k))
      else Inr (True, None))"

definition attend ::
  "'k MultiHeadAttention \<Rightarrow> bool option \<Rightarrow> real ndarray \<Rightarrow> real ndarray \<Rightarrow> real ndarray \<Rightarrow>
   real ndarray option \<Rightarrow> bool option \<Rightarrow> 'k option \<Rightarrow> error + real ndarray" where
  "attend self flag query key value msk det rngs =
     (case resolve_deterministic self flag det rngs of
        Inl e \<Rightarrow> Inl e
      | Inr (d, dropout_rng) \<Rightarrow>
          (case attention_fn self query key value msk dropout_rng (dropout_rate self)
                  (broadcast_dropout self) d of
             Inl e \<Rightarrow> Inl e
           | Inr x \<Rightarrow> out_proj self x))"

text \<open>
  \<^verbatim>\<open>__call__(inputs_q, inputs_k, inputs_v, mask, deterministic, rngs)\<close>. The result is the
  returned array or the exception raised, together with the object as the call leaves it.
\<close>

definition MultiHeadAttention_call ::
  "'k MultiHeadAttention \<Rightarrow> bool option \<Rightarrow> real ndarray \<Rightarrow> real ndarray option \<Rightarrow>
   real ndarray option \<Rightarrow> real ndarray option \<Rightarrow> bool option \<Rightarrow> 'k option \<Rightarrow>
   (error + real ndarray) \<times> 'k MultiHeadAttention" where
  "MultiHeadAttention_call self flag inputs_q inputs_k inputs_v msk det rngs =
     (case project_inputs self inputs_q inputs_k inputs_v of
        Inl e \<Rightarrow> (Inl e, self)
      | Inr (query, key, value) \<Rightarrow>
          if decode self
          then
            (case decode_step (cache self) query key value msk of
               (Inl e, c) \<Rightarrow> (Inl e, self\<lparr>cache := c\<rparr>)
             | (Inr (key', value', msk'), c) \<Rightarrow>
                 (attend (self\<lparr>cache := c\<rparr>) flag query key' value' msk' det rngs,
                  self\<lparr>cache := c\<rparr>))
          else (attend self flag query key value msk det rngs, self))"

text \<open>
  The invariant that the specification states for the cache: \<open>max_length\<close> is the axis of
  \<^verbatim>\<open>cached_key\<close> that \<^verbatim>\<open>__call__\<close> unpacks under this name, and \<^verbatim>\<open>cache_index\<close> is read as
  the signed integer it is.
\<close>

definition cache_max_length :: "cache \<Rightarrow> nat" where
  "cache_max_length c = shape (cached_key c) ! (ndim (cached_key c) - 3)"

definition cache_invariant :: "cache \<Rightarrow> bool" where
  "cache_invariant c \<longleftrightarrow>
     0 \<le> sint (cache_index c) \<and> sint (cache_index c) \<le> int (cache_max_length c)"

section \<open>Example inputs\<close>

text \<open>
  Concrete arrays and parameters on which the theorems below are instantiated: the array
  filled with one value, a Bernoulli draw that keeps every entry, and the most negative
  finite \<^verbatim>\<open>float32\<close>.
\<close>

definition full :: "nat list \<Rightarrow> 'a \<Rightarrow> 'a ndarray" where
  "full s v = \<lparr>shape = s, elem = (\<lambda>idx. v)\<rparr>"

definition keep_everything :: "unit \<Rightarrow> real \<Rightarrow> nat list \<Rightarrow> bool ndarray" where
  "keep_everything rng p s = full s True"

definition float32_min :: real where
  "float32_min = - (2 - 1 / 2 ^ 23) * 2 ^ 127"

text \<open>The largest finite \<^verbatim>\<open>float32\<close>.\<close>

definition float32_max :: real where
  "float32_max = (2 - 1 / 2 ^ 23) * 2 ^ 127"

text \<open>A mask over two key positions that admits the first one only.\<close>

definition mask_first_key :: "real ndarray" where
  "mask_first_key = \<lparr>shape = [1, 1, 2], elem = (\<lambda>idx. if last idx = 0 then 1 else 0)\<rparr>"

text \<open>The same mask over floating-point values.\<close>

definition mask_first_key_float :: "fl ndarray" where
  "mask_first_key_float = \<lparr>shape = [1, 1, 2], elem = (\<lambda>idx. if last idx = 0 then Fin 1 else Fin 0)\<rparr>"

text \<open>
  Modelled from the spec: the linear projections (\<^verbatim>\<open>LinearGeneral\<close> of \<^verbatim>\<open>linear.py\<close>, which is
  not among the sources). \<open>linear_general weights bias\<close> contracts the last axis of its input
  with the first axis of the kernel; \<open>linear_general_out weights bias\<close> contracts the last two
  axes of its input with the first two axes of the weights.
\<close>

definition linear_general :: "real ndarray \<Rightarrow> real ndarray \<Rightarrow> layer" where
  "linear_general weights bias x =
     (if shape x = [] then Inl (ValueError ''LinearGeneral: input rank'')
      else if [last (shape x)] \<noteq> take 1 (shape weights)
      then Inl (ValueError ''LinearGeneral: incompatible input dimension'')
      else
        let n = ndim x - 1
        in Inr \<lparr>shape = take n (shape x) @ drop 1 (shape weights),
                elem = (\<lambda>idx.
                  (\<Sum>f\<leftarrow>[0..<last (shape x)]. elem x (take n idx @ [f]) * elem weights (f # drop n idx))
                  + elem bias (drop n idx))\<rparr>)"

definition linear_general_out :: "real ndarray \<Rightarrow> real ndarray \<Rightarrow> layer" where
  "linear_general_out weights bias x =
     (if ndim x < 2 then Inl (ValueError ''LinearGeneral: input rank'')
      else if drop (ndim x - 2) (shape x) \<noteq> take 2 (shape weights)
      then Inl (ValueError ''LinearGeneral: incompatible input dimension'')
      else
        let n = ndim x - 2; h_dim = shape x ! n; d_dim = shape x ! (n + 1)
        in Inr \<lparr>shape = take n (shape x) @ drop 2 (shape weights),
                elem = (\<lambda>idx.
                  (\<Sum>h\<leftarrow>[0..<h_dim]. \<Sum>d\<leftarrow>[0..<d_dim].
                     elem x (take n idx @ [h, d]) * elem weights (h # d # drop n idx))
                  + elem bias (drop n idx))\<rparr>)"

text \<open>
  The attention function the module uses by default, with the example parameters above; a
  module with \<open>n_heads\<close> heads on \<open>f_in\<close> features in decode mode, without dropout and with
  all kernels 1 and all biases 0; a call that passes only \<^verbatim>\<open>inputs_q\<close>; that module with one
  head of depth 1 after \<^verbatim>\<open>init_cache((max_length, 1))\<close>; and a sequence of such calls.
\<close>

definition default_attention_fn :: "unit attention_fn" where
  "default_attention_fn query key value msk dropout_rng rate bd det =
     dot_product_attention keep_everything float32_min query key value None msk bd dropout_rng
       rate det"

definition example_module :: "nat \<Rightarrow> nat \<Rightarrow> error + unit MultiHeadAttention" where
  "example_module n_heads f_in =
     MultiHeadAttention_init n_heads f_in None True 0 None default_attention_fn True False
       (linear_general (full [f_in, n_heads, f_in div n_heads] 1) (full [n_heads, f_in div n_heads] 0))
       (linear_general (full [f_in, n_heads, f_in div n_heads] 1) (full [n_heads, f_in div n_heads] 0))
       (linear_general (full [f_in, n_heads, f_in div n_heads] 1) (full [n_heads, f_in div n_heads] 0))
       (\<lambda>x. Inr x) (\<lambda>x. Inr x)
       (linear_general_out (full [n_heads, f_in div n_heads, f_in] 1) (full [f_in] 0))"

definition decode_once ::
  "unit MultiHeadAttention \<Rightarrow> real ndarray \<Rightarrow> (error + real ndarray) \<times> unit MultiHeadAttention" where
  "decode_once self x = MultiHeadAttention_call self None x None None None None None"

definition example_decoder :: "nat \<Rightarrow> unit MultiHeadAttention" where
  "example_decoder max_length = init_cache (projr (example_module 1 1)) [max_length, 1]"

fun decode_run ::
  "unit MultiHeadAttention \<Rightarrow> real ndarray list \<Rightarrow> unit MultiHeadAttention" where
  "decode_run self [] = self"
| "decode_run self (x # xs) = decode_run (snd (decode_once self x)) xs"

section \<open>Properties of the attention weights\<close>

lemmas weights_defs = dot_product_attention_weights_def masked_scores_def attention_scores_def
  einsum_qk_def softmax_def row_of_def broadcast_binary_def broadcast_shapes_def pad_left_def
  bc_index_def astype_def ndim_def full_def Let_def

lemmas float_defs = dot_product_attention_weights_float_def masked_scores_float_def
  attention_scores_float_def einsum_qk_float_def softmax_float_def row_of_def
  broadcast_binary_def broadcast_shapes_def pad_left_def bc_index_def astype_def ndim_def
  full_def Let_def fl_sum_def fl_max_list_def fl_sub_def overflow_def fl_true_def

subsection \<open>Rows of a softmax\<close>

lemma sum_list_exp_pos: "xs \<noteq> [] \<Longrightarrow> 0 < (\<Sum>v\<leftarrow>xs. exp (f v :: real))"
proof (induction xs)
  case Nil
  then show ?case by simp
next
  case (Cons a xs)
  have "0 \<le> (\<Sum>v\<leftarrow>xs. exp (f v))" by (rule sum_list_nonneg) auto
  then show ?case by (simp add: add_pos_nonneg)
qed

lemma sum_list_map_divide: "(\<Sum>x\<leftarrow>xs. f x / (c::real)) = (\<Sum>x\<leftarrow>xs. f x) / c"
  by (induction xs) (simp_all add: add_divide_distrib)

lemma softmax_Inr:
  assumes "softmax x = Inr w"
  shows "shape w = shape x" and "shape x \<noteq> []" and "0 < last (shape x)"
    and "elem w idx = exp (elem x idx - Max (set (row_of x idx))) /
           (\<Sum>v\<leftarrow>row_of x idx. exp (v - Max (set (row_of x idx))))"
  using assms by (auto simp: softmax_def Let_def split: if_splits)

lemma row_of_snoc: "row_of x (idx @ [j]) = row_of x (idx @ [k])"
  by (simp add: row_of_def)

lemma softmax_row_sum:
  assumes "softmax x = Inr w"
  shows "(\<Sum>j\<leftarrow>[0..<last (shape w)]. elem w (idx @ [j])) = 1"
proof -
  define row where "row = row_of x (idx @ [0])"
  define m where "m = Max (set row)"
  define S where "S = (\<Sum>v\<leftarrow>row. exp (v - m))"
  have n: "0 < last (shape x)" and sh: "shape w = shape x"
    using assms by (rule softmax_Inr)+
  have "row \<noteq> []" using n by (simp add: row_def row_of_def)
  then have S: "0 < S" unfolding S_def by (rule sum_list_exp_pos)
  have el: "elem w (idx @ [j]) = exp (elem x (idx @ [j]) - m) / S" for j
    using softmax_Inr(4)[OF assms, of "idx @ [j]"]
    by (simp add: row_of_snoc[of x idx j 0] row_def m_def S_def)
  have "(\<Sum>j\<leftarrow>[0..<last (shape w)]. elem w (idx @ [j]))
      = (\<Sum>j\<leftarrow>[0..<last (shape x)]. exp (elem x (idx @ [j]) - m)) / S"
    by (simp add: el sh sum_list_map_divide)
  also have "(\<Sum>j\<leftarrow>[0..<last (shape x)]. exp (elem x (idx @ [j]) - m)) = S"
    by (simp add: S_def row_def row_of_def comp_def)
  finally show ?thesis using S by simp
qed

lemma softmax_constant_row:
  assumes sm: "softmax x = Inr w" and c: "\<forall>j<last (shape x). elem x (idx @ [j]) = c"
  shows "elem w (idx @ [j]) = exp (elem x (idx @ [j]) - c) / real (last (shape x))"
proof -
  have n: "0 < last (shape x)" using sm by (rule softmax_Inr)
  have row: "row_of x (idx @ [j]) = replicate (last (shape x)) c"
    using c by (auto simp: row_of_def list_eq_iff_nth_eq)
  have mx: "Max (set (row_of x (idx @ [j]))) = c" using n by (simp add: row)
  show ?thesis
    using softmax_Inr(4)[OF sm, of "idx @ [j]"] by (simp add: mx) (simp add: row sum_list_replicate)
qed

subsection \<open>Rows of a floating-point softmax\<close>

text \<open>
  Sums and maxima of finite values, and the softmax of a row whose scores are all finite: no
  operation overflows as long as the length of the row does not exceed \<open>fmax\<close>.
\<close>

lemma foldl_fl_add_Fin:
  "0 \<le> a \<Longrightarrow> (\<forall>v\<in>set vs. 0 \<le> v) \<Longrightarrow> a + sum_list vs \<le> fmax \<Longrightarrow>
   foldl (fl_add fmax) (Fin a) (map Fin vs) = Fin (a + sum_list vs)"
proof (induction vs arbitrary: a)
  case Nil
  then show ?case by simp
next
  case (Cons v vs)
  have nn: "0 \<le> sum_list vs" using Cons.prems(2) by (intro sum_list_nonneg) simp
  have v: "0 \<le> v" using Cons.prems(2) by simp
  have "fl_add fmax (Fin a) (Fin v) = Fin (a + v)"
    using Cons.prems(1,3) v nn by (simp add: overflow_def)
  moreover have "foldl (fl_add fmax) (Fin (a + v)) (map Fin vs) = Fin (a + v + sum_list vs)"
    using Cons.prems v by (intro Cons.IH) simp_all
  ultimately show ?case by (simp add: add.assoc)
qed

lemma fl_sum_Fin:
  "(\<forall>v\<in>set vs. 0 \<le> v) \<Longrightarrow> sum_list vs \<le> fmax \<Longrightarrow> fl_sum fmax (map Fin vs) = Fin (sum_list vs)"
  using foldl_fl_add_Fin[of 0 vs fmax] by (simp add: fl_sum_def)

lemma foldl_fl_max_Fin: "foldl fl_max (Fin a) (map Fin xs) = Fin (fold max xs a)"
  by (induction xs arbitrary: a) (simp_all add: max.commute)

lemma fl_max_list_Fin: "xs \<noteq> [] \<Longrightarrow> fl_max_list (map Fin xs) = Fin (Max (set xs))"
  by (cases xs) (simp_all add: fl_max_list_def foldl_fl_max_Fin Max.set_eq_fold del: set_simps)

lemma fl_exp_sub_Fin:
  assumes "x \<le> m" and "1 \<le> fmax"
  shows "fl_exp fmax (fl_sub fmax (Fin x) (Fin m)) = Fin (unnormalized fmax x m)"
proof (cases "x - m < - fmax")
  case True
  then show ?thesis using assms by (simp add: fl_sub_def overflow_def unnormalized_def)
next
  case False
  have "exp (x - m) \<le> 1" using assms(1) by simp
  then have "exp (x - m) \<le> fmax" using assms(2) by linarith
  moreover have "- fmax \<le> exp (x - m)"
    using assms(2) exp_ge_zero[of "x - m"] by linarith
  ultimately show ?thesis
    using False assms by (simp add: fl_sub_def overflow_def unnormalized_def)
qed

lemma unnormalized_bounds:
  assumes "x \<le> m"
  shows "0 \<le> unnormalized fmax x m" and "unnormalized fmax x m \<le> 1"
    and "unnormalized fmax x m \<le> exp (x - m)"
  using assms by (simp_all add: unnormalized_def)

lemma unnormalized_max: "0 \<le> fmax \<Longrightarrow> unnormalized fmax m m = 1"
  by (simp add: unnormalized_def)

lemma is_fin_conv: "is_fin x \<longleftrightarrow> x = Fin (fl_real x)"
  by (cases x) simp_all

lemma sum_list_le_length:
  "(\<forall>u\<in>set us. u \<le> (1::real)) \<Longrightarrow> sum_list us \<le> real (length us)"
  by (induction us) auto

lemma member_le_sum_list_real:
  "(\<forall>u\<in>set us. 0 \<le> (u::real)) \<Longrightarrow> v \<in> set us \<Longrightarrow> v \<le> sum_list us"
proof (induction us)
  case Nil
  then show ?case by simp
next
  case (Cons u us)
  have nn: "0 \<le> sum_list us" using Cons.prems(1) by (intro sum_list_nonneg) simp
  show ?case
  proof (cases "v = u")
    case True
    then show ?thesis using nn by simp
  next
    case False
    then have "v \<le> sum_list us" using Cons by simp
    moreover have "0 \<le> u" using Cons.prems(1) by simp
    ultimately show ?thesis by simp
  qed
qed

lemma softmax_float_Inr:
  assumes "softmax_float fmax x = Inr w"
  shows "shape w = shape x" and "0 < last (shape x)"
    and "elem w idx =
      fl_div fmax (fl_exp fmax (fl_sub fmax (elem x idx) (fl_max_list (row_of x idx))))
        (fl_sum fmax (map (\<lambda>v. fl_exp fmax (fl_sub fmax v (fl_max_list (row_of x idx))))
           (row_of x idx)))"
  using assms by (auto simp: softmax_float_def Let_def split: if_splits)

lemma softmax_float_finite_row:
  assumes sm: "softmax_float fmax s = Inr w"
    and fin: "\<forall>j<last (shape s). is_fin (elem s (idx @ [j]))"
    and len: "real (last (shape s)) \<le> fmax"
  defines "xs \<equiv> map (\<lambda>j. fl_real (elem s (idx @ [j]))) [0..<last (shape s)]"
  defines "m \<equiv> Max (set xs)"
  defines "S \<equiv> (\<Sum>x\<leftarrow>xs. unnormalized fmax x m)"
  shows "1 \<le> S" and "\<forall>x\<in>set xs. x \<le> m"
    and "\<forall>j<last (shape s). elem w (idx @ [j]) =
           Fin (unnormalized fmax (fl_real (elem s (idx @ [j]))) m / S)"
proof -
  have L: "0 < last (shape s)" using sm by (rule softmax_float_Inr)
  then have fmax: "1 \<le> fmax" using len by linarith
  have ne: "xs \<noteq> []" using L by (simp add: xs_def)
  show le: "\<forall>x\<in>set xs. x \<le> m" by (simp add: m_def)
  have m_in: "m \<in> set xs" unfolding m_def using ne by (intro Max_in) simp_all
  have row: "row_of s (idx @ [j]) = map Fin xs" for j
    using fin by (simp add: row_of_def xs_def is_fin_conv[symmetric] comp_def)
  have mx: "fl_max_list (map Fin xs) = Fin m"
    using ne by (simp add: fl_max_list_Fin m_def)
  define us where "us = map (\<lambda>x. unnormalized fmax x m) xs"
  have exps: "map (\<lambda>v. fl_exp fmax (fl_sub fmax v (Fin m))) (map Fin xs) = map Fin us"
    using le fmax by (simp add: us_def fl_exp_sub_Fin)
  have us_nn: "\<forall>u\<in>set us. 0 \<le> u" and us_le: "\<forall>u\<in>set us. u \<le> 1"
    using le by (auto simp: us_def unnormalized_bounds)
  have S_us: "S = sum_list us" by (simp add: S_def us_def)
  have "sum_list us \<le> real (length us)" using us_le by (rule sum_list_le_length)
  then have S_le: "S \<le> fmax" using len by (simp add: S_us us_def xs_def)
  have "unnormalized fmax m m \<in> set us" using m_in by (auto simp: us_def)
  then have "unnormalized fmax m m \<le> sum_list us"
    using us_nn by (intro member_le_sum_list_real)
  then show S1: "1 \<le> S" using fmax by (simp add: S_us unnormalized_max)
  have sum: "fl_sum fmax (map Fin us) = Fin S"
    using us_nn S_le by (simp add: fl_sum_Fin S_us)
  show "\<forall>j<last (shape s). elem w (idx @ [j]) =
           Fin (unnormalized fmax (fl_real (elem s (idx @ [j]))) m / S)"
  proof (intro allI impI)
    fix j assume j: "j < last (shape s)"
    define x where "x = fl_real (elem s (idx @ [j]))"
    have xj: "elem s (idx @ [j]) = Fin x" using fin j by (simp add: x_def is_fin_conv[symmetric])
    have x_in: "x \<in> set xs" using j by (auto simp: xs_def x_def)
    then have x_le: "x \<le> m" using le by simp
    have u: "fl_exp fmax (fl_sub fmax (Fin x) (Fin m)) = Fin (unnormalized fmax x m)"
      using x_le fmax by (rule fl_exp_sub_Fin)
    have q0: "0 \<le> unnormalized fmax x m / S"
      using unnormalized_bounds(1)[OF x_le] S1 by simp
    have "unnormalized fmax x m * 1 \<le> unnormalized fmax x m * S"
      using unnormalized_bounds(1)[OF x_le, of fmax] S1 by (intro mult_left_mono)
    then have "unnormalized fmax x m / S \<le> unnormalized fmax x m"
      using S1 by (simp add: divide_le_eq)
    then have q1: "unnormalized fmax x m / S \<le> fmax"
      using unnormalized_bounds(2)[OF x_le, of fmax] fmax by linarith
    have "elem w (idx @ [j]) = fl_div fmax (Fin (unnormalized fmax x m)) (Fin S)"
      by (simp only: softmax_float_Inr(3)[OF sm] row mx exps sum xj u)
    also have "\<dots> = Fin (unnormalized fmax x m / S)"
      using S1 q0 q1 fmax by (simp add: overflow_def)
    finally show "elem w (idx @ [j]) = Fin (unnormalized fmax (fl_real (elem s (idx @ [j]))) m / S)"
      by (simp add: x_def)
  qed
qed

lemma softmax_float_row_distribution:
  assumes sm: "softmax_float fmax s = Inr w"
    and fin: "\<forall>j<last (shape s). is_fin (elem s (idx @ [j]))"
    and len: "real (last (shape s)) \<le> fmax"
  shows "fl_sum fmax (map (\<lambda>j. elem w (idx @ [j])) [0..<last (shape s)]) = Fin 1"
    and "\<forall>j<last (shape s). \<exists>p. elem w (idx @ [j]) = Fin p \<and> 0 \<le> p"
proof -
  define xs where "xs = map (\<lambda>j. fl_real (elem s (idx @ [j]))) [0..<last (shape s)]"
  define m where "m = Max (set xs)"
  define S where "S = (\<Sum>x\<leftarrow>xs. unnormalized fmax x m)"
  note row = softmax_float_finite_row[OF sm fin len, folded xs_def m_def S_def]
  have S1: "1 \<le> S" and le: "\<forall>x\<in>set xs. x \<le> m"
    and el: "\<forall>j<last (shape s). elem w (idx @ [j]) =
               Fin (unnormalized fmax (fl_real (elem s (idx @ [j]))) m / S)"
    using row by (simp_all add: S_def)
  have fmax: "1 \<le> fmax" using softmax_float_Inr(2)[OF sm] len by linarith
  have nn: "0 \<le> unnormalized fmax (fl_real (elem s (idx @ [j]))) m / S"
    if "j < last (shape s)" for j
  proof -
    have "fl_real (elem s (idx @ [j])) \<in> set xs" using that by (auto simp: xs_def)
    then have "0 \<le> unnormalized fmax (fl_real (elem s (idx @ [j]))) m"
      using le by (intro unnormalized_bounds) simp
    then show ?thesis using S1 by simp
  qed
  show "\<forall>j<last (shape s). \<exists>p. elem w (idx @ [j]) = Fin p \<and> 0 \<le> p"
    using el nn by simp
  define ps where "ps = map (\<lambda>x. unnormalized fmax x m / S) xs"
  have map_eq: "map (\<lambda>j. elem w (idx @ [j])) [0..<last (shape s)] = map Fin ps"
    using el by (simp add: ps_def xs_def comp_def)
  have ps_nn: "\<forall>p\<in>set ps. 0 \<le> p" using nn by (auto simp: ps_def xs_def)
  have "sum_list ps = S / S" by (simp add: ps_def S_def sum_list_map_divide)
  then have ps_sum: "sum_list ps = 1" using S1 by simp
  have "fl_sum fmax (map Fin ps) = Fin (sum_list ps)"
    using ps_nn fmax by (intro fl_sum_Fin) (simp_all add: ps_sum)
  then show "fl_sum fmax (map (\<lambda>j. elem w (idx @ [j])) [0..<last (shape s)]) = Fin 1"
    by (simp only: map_eq ps_sum)
qed

lemma softmax_float_upper:
  assumes sm: "softmax_float fmax s = Inr w"
    and fin: "\<forall>j<last (shape s). is_fin (elem s (idx @ [j]))"
    and len: "real (last (shape s)) \<le> fmax"
    and j: "j < last (shape s)" and k: "k < last (shape s)"
  shows "\<exists>p. elem w (idx @ [j]) = Fin p \<and> 0 \<le> p \<and>
           p \<le> exp (fl_real (elem s (idx @ [j])) - fl_real (elem s (idx @ [k])))"
proof -
  define xs where "xs = map (\<lambda>j. fl_real (elem s (idx @ [j]))) [0..<last (shape s)]"
  define m where "m = Max (set xs)"
  define S where "S = (\<Sum>x\<leftarrow>xs. unnormalized fmax x m)"
  note row = softmax_float_finite_row[OF sm fin len, folded xs_def m_def S_def]
  have S1: "1 \<le> S" and le: "\<forall>x\<in>set xs. x \<le> m"
    and el: "\<forall>j<last (shape s). elem w (idx @ [j]) =
               Fin (unnormalized fmax (fl_real (elem s (idx @ [j]))) m / S)"
    using row by (simp_all add: S_def)
  define x where "x = fl_real (elem s (idx @ [j]))"
  define y where "y = fl_real (elem s (idx @ [k]))"
  have "x \<in> set xs" "y \<in> set xs" using j k by (auto simp: xs_def x_def y_def)
  then have xm: "x \<le> m" and ym: "y \<le> m" using le by simp_all
  have u0: "0 \<le> unnormalized fmax x m" and ue: "unnormalized fmax x m \<le> exp (x - m)"
    using xm by (rule unnormalized_bounds)+
  have "unnormalized fmax x m * 1 \<le> unnormalized fmax x m * S"
    using u0 S1 by (intro mult_left_mono)
  then have "unnormalized fmax x m / S \<le> unnormalized fmax x m"
    using S1 by (simp add: divide_le_eq)
  also have "\<dots> \<le> exp (x - m)" by (rule ue)
  also have "\<dots> \<le> exp (x - y)" using ym by simp
  finally have "unnormalized fmax x m / S \<le> exp (x - y)" .
  moreover have "0 \<le> unnormalized fmax x m / S" using u0 S1 by simp
  moreover have "elem w (idx @ [j]) = Fin (unnormalized fmax x m / S)"
    using el j by (simp add: x_def)
  ultimately show ?thesis by (simp add: x_def y_def)
qed

subsection \<open>The weights without dropout\<close>

lemma masked_scores_Some:
  assumes "masked_scores big_neg query key bias (Some m) = Inr s"
  shows "\<exists>a. attention_scores query key bias = Inr a \<and>
           broadcast_shapes (shape m) (shape a) = Some (shape s) \<and>
           (\<forall>idx. elem s idx = (if elem m (bc_index (shape m) idx) \<noteq> 0
                                then elem a (bc_index (shape a) idx) else big_neg))"
  using assms
  by (auto simp: masked_scores_def broadcast_binary_def split: sum.splits option.splits)

lemma weights_softmax:
  assumes "dot_product_attention_weights bernoulli big_neg query key bias msk bd
             dropout_rng rate det = Inr w"
    and "det \<or> rate \<le> 0"
  shows "\<exists>s. masked_scores big_neg query key bias msk = Inr s \<and> softmax s = Inr w"
  using assms
  by (auto simp: dot_product_attention_weights_def split: sum.splits if_splits)

lemma shape_snoc3:
  "length (bs @ [L, H, D]) - 3 = length bs"
  "take (length bs) (bs @ [L, H, D]) = bs"
  "(bs @ [L, H, D]) ! length bs = L"
  "(bs @ [L, H, D]) ! Suc (length bs) = H"
  "(bs @ [L, H, D]) ! Suc (Suc (length bs)) = D"
  by (simp_all add: nth_append)

lemma masked_scores_float_Some:
  assumes "masked_scores_float fmax query key bias (Some m) = Inr s"
  shows "\<exists>a. attention_scores_float fmax query key bias = Inr a \<and>
           broadcast_shapes (shape m) (shape a) = Some (shape s) \<and>
           (\<forall>idx. elem s idx = (if fl_true (elem m (bc_index (shape m) idx))
                                then elem a (bc_index (shape a) idx) else Fin (- fmax)))"
  using assms
  by (auto simp: masked_scores_float_def broadcast_binary_def split: sum.splits option.splits)

lemma weights_softmax_float:
  assumes "dot_product_attention_weights_float bernoulli fmax query key bias msk bd
             dropout_rng rate det = Inr w"
    and "det \<or> rate \<le> 0"
  shows "\<exists>s. masked_scores_float fmax query key bias msk = Inr s \<and> softmax_float fmax s = Inr w"
  using assms
  by (auto simp: dot_product_attention_weights_float_def split: sum.splits if_splits)

lemma attention_scores_float_returns:
  assumes "shape query = bs @ [Lq, H, D]" and "shape key = bs @ [Lk, H, D]"
  shows "\<exists>a. attention_scores_float fmax query key None = Inr a \<and> shape a = bs @ [H, Lq, Lk]"
  by (simp add: attention_scores_float_def einsum_qk_float_def ndim_def astype_def assms
      shape_snoc3 Let_def)

lemma attention_weights_float_returns:
  assumes q: "shape query = bs @ [Lq, H, D]" and k: "shape key = bs @ [Lk, H, D]"
    and pos: "0 < Lk" and nd: "det \<or> rate \<le> 0"
  shows "\<exists>w. dot_product_attention_weights_float bernoulli fmax query key None None bd rng rate det
              = Inr w \<and> shape w = bs @ [H, Lq, Lk]"
proof -
  from attention_scores_float_returns[OF q k] obtain a where
    a: "attention_scores_float fmax query key None = Inr a" and sh: "shape a = bs @ [H, Lq, Lk]"
    by blast
  have "\<exists>w. softmax_float fmax a = Inr w \<and> shape w = shape a"
    using pos by (simp add: softmax_float_def sh)
  then show ?thesis
    using nd by (auto simp: dot_product_attention_weights_float_def masked_scores_float_def a sh)
qed

text \<open>
  C1, as the claim states it, fails when a score leaves the finite range. In \<^verbatim>\<open>float32\<close>, for
  a query and a key of shape \<^verbatim>\<open>[1, 1, 1]\<close> that both hold \<open>2 ^ 65\<close>, the pair is valid and the
  function returns, but the score \<open>2 ^ 130\<close> is an infinity, the softmax subtracts the row
  maximum from it, and the only weight of the row is NaN: it is neither non-negative nor does
  the row sum to 1.
\<close>

theorem attention_weights_overflow_counterexample:
  "shape (full [1, 1, 1] (Fin (2 ^ 65))) = [] @ [1, 1, 1] \<and>
   \<not> isl (dot_product_attention_weights_float keep_everything float32_max
      (full [1, 1, 1] (Fin (2 ^ 65))) (full [1, 1, 1] (Fin (2 ^ 65))) None None True None 0 True) \<and>
   shape (projr (dot_product_attention_weights_float keep_everything float32_max
      (full [1, 1, 1] (Fin (2 ^ 65))) (full [1, 1, 1] (Fin (2 ^ 65))) None None True None 0 True))
     = [1, 1, 1] \<and>
   elem (projr (attention_scores_float float32_max
      (full [1, 1, 1] (Fin (2 ^ 65))) (full [1, 1, 1] (Fin (2 ^ 65))) None)) [0, 0, 0] = PInf \<and>
   elem (projr (dot_product_attention_weights_float keep_everything float32_max
      (full [1, 1, 1] (Fin (2 ^ 65))) (full [1, 1, 1] (Fin (2 ^ 65))) None None True None 0 True))
     [0, 0, 0] = NaN"
  by (simp add: float_defs float32_max_def)

text \<open>
  C1, amended. For a query of shape \<^verbatim>\<open>[batch..., q_length, num_heads, depth]\<close> and a key of
  shape \<^verbatim>\<open>[batch..., kv_length, num_heads, depth]\<close> with at least one key position, without bias
  and mask and without dropout (\<open>det\<close> is set or the rate is not positive),
  \<open>dot_product_attention_weights\<close> returns weights of shape
  \<^verbatim>\<open>[batch..., num_heads, q_length, kv_length]\<close>. Whenever it returns without dropout, with or
  without bias and mask, every row along the last (key-length) axis whose scores after bias
  and mask are all finite, and whose length does not exceed the largest finite value, is a
  probability distribution: its entries are finite and non-negative and they sum to 1. The
  sum is exact because rounding is not modelled.
\<close>

theorem attention_weights_finite_rows_are_distributions:
  "(shape query = bs @ [Lq, H, D] \<and> shape key = bs @ [Lk, H, D] \<and> 0 < Lk \<and>
    (det \<or> rate \<le> 0) \<longrightarrow>
      (\<exists>w. dot_product_attention_weights_float bernoulli fmax query key None None bd rng rate det
              = Inr w \<and> shape w = bs @ [H, Lq, Lk])) \<and>
   (dot_product_attention_weights_float bernoulli fmax query key bias msk bd rng rate det = Inr w \<and>
    (det \<or> rate \<le> 0) \<and> masked_scores_float fmax query key bias msk = Inr s \<and>
    (\<forall>j<last (shape w). is_fin (elem s (idx @ [j]))) \<and> real (last (shape w)) \<le> fmax \<longrightarrow>
      fl_sum fmax (map (\<lambda>j. elem w (idx @ [j])) [0..<last (shape w)]) = Fin 1 \<and>
      (\<forall>j<last (shape w). \<exists>p. elem w (idx @ [j]) = Fin p \<and> 0 \<le> p))"
proof (intro conjI impI)
  assume "shape query = bs @ [Lq, H, D] \<and> shape key = bs @ [Lk, H, D] \<and> 0 < Lk \<and>
    (det \<or> rate \<le> 0)"
  then show "\<exists>w. dot_product_attention_weights_float bernoulli fmax query key None None bd rng
      rate det = Inr w \<and> shape w = bs @ [H, Lq, Lk]"
    using attention_weights_float_returns by blast
next
  assume a: "dot_product_attention_weights_float bernoulli fmax query key bias msk bd rng rate det
      = Inr w \<and> (det \<or> rate \<le> 0) \<and> masked_scores_float fmax query key bias msk = Inr s \<and>
    (\<forall>j<last (shape w). is_fin (elem s (idx @ [j]))) \<and> real (last (shape w)) \<le> fmax"
  then have sm: "softmax_float fmax s = Inr w"
    using weights_softmax_float by fastforce
  have sh: "shape w = shape s" using sm by (rule softmax_float_Inr)
  have fin: "\<forall>j<last (shape s). is_fin (elem s (idx @ [j]))"
    and len: "real (last (shape s)) \<le> fmax"
    using a by (simp_all add: sh)
  show "fl_sum fmax (map (\<lambda>j. elem w (idx @ [j])) [0..<last (shape w)]) = Fin 1"
    using softmax_float_row_distribution(1)[OF sm fin len] by (simp add: sh)
  show "\<forall>j<last (shape w). \<exists>p. elem w (idx @ [j]) = Fin p \<and> 0 \<le> p"
    using softmax_float_row_distribution(2)[OF sm fin len] by (simp add: sh)
qed

theorem attention_weights_finite_rows_are_distributions_witness:
  "shape (full [1, 1, 1] (Fin 3)) = [] @ [1, 1, 1] \<and>
   shape (full [2, 1, 1] (Fin 5)) = [] @ [2, 1, 1] \<and>
   shape (projr (dot_product_attention_weights_float keep_everything float32_max
      (full [1, 1, 1] (Fin 3)) (full [2, 1, 1] (Fin 5)) None None True None (1 / 2) True))
     = [1, 1, 2] \<and>
   elem (projr (masked_scores_float float32_max
      (full [1, 1, 1] (Fin 3)) (full [2, 1, 1] (Fin 5)) None None)) [0, 0, 0] = Fin 15 \<and>
   elem (projr (masked_scores_float float32_max
      (full [1, 1, 1] (Fin 3)) (full [2, 1, 1] (Fin 5)) None None)) [0, 0, 1] = Fin 15 \<and>
   real 2 \<le> float32_max \<and>
   fl_sum float32_max (map (\<lambda>j. elem (projr (dot_product_attention_weights_float keep_everything
      float32_max (full [1, 1, 1] (Fin 3)) (full [2, 1, 1] (Fin 5)) None None True None (1 / 2) True))
      ([0, 0] @ [j])) [0..<2]) = Fin 1 \<and>
   is_fin (elem (projr (dot_product_attention_weights_float keep_everything float32_max
      (full [1, 1, 1] (Fin 3)) (full [2, 1, 1] (Fin 5)) None None True None (1 / 2) True)) [0, 0, 0]) \<and>
   0 \<le> fl_real (elem (projr (dot_product_attention_weights_float keep_everything float32_max
      (full [1, 1, 1] (Fin 3)) (full [2, 1, 1] (Fin 5)) None None True None (1 / 2) True)) [0, 0, 0]) \<and>
   is_fin (elem (projr (dot_product_attention_weights_float keep_everything float32_max
      (full [1, 1, 1] (Fin 3)) (full [2, 1, 1] (Fin 5)) None None True None (1 / 2) True)) [0, 0, 1]) \<and>
   0 \<le> fl_real (elem (projr (dot_product_attention_weights_float keep_everything float32_max
      (full [1, 1, 1] (Fin 3)) (full [2, 1, 1] (Fin 5)) None None True None (1 / 2) True)) [0, 0, 1])"
proof -
  define r where "r = dot_product_attention_weights_float keep_everything float32_max
      (full [1, 1, 1] (Fin 3)) (full [2, 1, 1] (Fin 5)) None None True None (1 / 2) True"
  define t where "t = masked_scores_float float32_max
      (full [1, 1, 1] (Fin 3)) (full [2, 1, 1] (Fin 5)) None None"
  have q: "shape (full [1, 1, 1] (Fin 3)) = [] @ [1, 1, 1]"
    and k: "shape (full [2, 1, 1] (Fin 5)) = [] @ [2, 1, 1]"
    by (simp_all add: full_def)
  have nd: "True \<or> (1 / 2 :: real) \<le> 0" by simp
  have big: "real 2 \<le> float32_max" by (simp add: float32_max_def)
  note inst = attention_weights_finite_rows_are_distributions[where query = "full [1, 1, 1] (Fin 3)"
      and key = "full [2, 1, 1] (Fin 5)" and bs = "[]" and Lq = 1 and H = 1 and D = 1 and Lk = 2
      and det = True and rate = "1 / 2" and bernoulli = keep_everything
      and fmax = float32_max and bd = True and rng = None and bias = None and msk = None
      and w = "projr r" and s = "projr t" and idx = "[0, 0]"]
  from inst q k nd obtain w where w: "r = Inr w" and sh: "shape w = [1, 1, 2]"
    unfolding r_def by auto
  have t: "t = Inr (projr t)"
    unfolding t_def by (simp add: float_defs)
  have s0: "elem (projr t) [0, 0, 0] = Fin 15" and s1: "elem (projr t) [0, 0, 1] = Fin 15"
    unfolding t_def by (simp_all add: float_defs float32_max_def)
  have fin: "\<forall>j<last (shape (projr r)). is_fin (elem (projr t) ([0, 0] @ [j]))"
    using s0 s1 by (simp add: w sh less_Suc_eq numeral_2_eq_2)
  have len: "real (last (shape (projr r))) \<le> float32_max"
    using big by (simp add: w sh)
  from inst w t fin len
  have sum: "fl_sum float32_max (map (\<lambda>j. elem (projr r) ([0, 0] @ [j])) [0..<2]) = Fin 1"
    and nn: "\<forall>j<2. \<exists>p. elem (projr r) ([0, 0] @ [j]) = Fin p \<and> 0 \<le> p"
    unfolding r_def[symmetric] t_def[symmetric] by (simp_all add: sh)
  from nn have "\<exists>p. elem (projr r) ([0, 0] @ [0]) = Fin p \<and> 0 \<le> p"
    "\<exists>p. elem (projr r) ([0, 0] @ [1]) = Fin p \<and> 0 \<le> p"
    by simp_all
  then have "is_fin (elem (projr r) [0, 0, 0]) \<and> 0 \<le> fl_real (elem (projr r) [0, 0, 0])"
    "is_fin (elem (projr r) [0, 0, 1]) \<and> 0 \<le> fl_real (elem (projr r) [0, 0, 1])"
    by auto
  then have "shape (full [1, 1, 1] (Fin 3)) = [] @ [1, 1, 1] \<and>
      shape (full [2, 1, 1] (Fin 5)) = [] @ [2, 1, 1] \<and>
      shape (projr r) = [1, 1, 2] \<and>
      elem (projr t) [0, 0, 0] = Fin 15 \<and> elem (projr t) [0, 0, 1] = Fin 15 \<and>
      real 2 \<le> float32_max \<and>
      fl_sum float32_max (map (\<lambda>j. elem (projr r) ([0, 0] @ [j])) [0..<2]) = Fin 1 \<and>
      is_fin (elem (projr r) [0, 0, 0]) \<and> 0 \<le> fl_real (elem (projr r) [0, 0, 0]) \<and>
      is_fin (elem (projr r) [0, 0, 1]) \<and> 0 \<le> fl_real (elem (projr r) [0, 0, 1])"
    using q k w sh s0 s1 big sum by simp
  then show ?thesis unfolding r_def t_def .
qed

subsection \<open>Masked positions\<close>

text \<open>
  C2, as the claim states it, fails in two ways. On a row whose key positions are all masked
  the weights are uniform: with two key positions, both masked, the weight at a masked
  position is 1/2. And on a row with an unmasked score that has left the finite range the
  weights are NaN: in \<^verbatim>\<open>float32\<close>, with query and keys \<open>2 ^ 65\<close> and the second of two key
  positions masked, the scores of the row are an infinity and \<open>- fmax\<close>, and the weight at
  the masked position is NaN.
\<close>

theorem masked_weight_counterexample:
  "\<not> isl (dot_product_attention_weights_float keep_everything float32_max
      (full [1, 1, 1] (Fin 0)) (full [2, 1, 1] (Fin 0)) None (Some (full [1, 1, 2] (Fin 0)))
      True None 0 True) \<and>
   \<not> fl_true (elem (full [1, 1, 2] (Fin 0)) [0, 0, 0]) \<and>
   elem (projr (dot_product_attention_weights_float keep_everything float32_max
      (full [1, 1, 1] (Fin 0)) (full [2, 1, 1] (Fin 0)) None (Some (full [1, 1, 2] (Fin 0)))
      True None 0 True)) [0, 0, 0] = Fin (1 / 2) \<and>
   \<not> isl (dot_product_attention_weights_float keep_everything float32_max
      (full [1, 1, 1] (Fin (2 ^ 65))) (full [2, 1, 1] (Fin (2 ^ 65))) None
      (Some mask_first_key_float) True None 0 True) \<and>
   \<not> fl_true (elem mask_first_key_float [0, 0, 1]) \<and>
   elem (projr (masked_scores_float float32_max
      (full [1, 1, 1] (Fin (2 ^ 65))) (full [2, 1, 1] (Fin (2 ^ 65))) None
      (Some mask_first_key_float))) [0, 0, 0] = PInf \<and>
   elem (projr (masked_scores_float float32_max
      (full [1, 1, 1] (Fin (2 ^ 65))) (full [2, 1, 1] (Fin (2 ^ 65))) None
      (Some mask_first_key_float))) [0, 0, 1] = Fin (- float32_max) \<and>
   elem (projr (dot_product_attention_weights_float keep_everything float32_max
      (full [1, 1, 1] (Fin (2 ^ 65))) (full [2, 1, 1] (Fin (2 ^ 65))) None
      (Some mask_first_key_float) True None 0 True)) [0, 0, 1] = NaN"
  by (simp add: float_defs float32_max_def mask_first_key_float_def upt_rec)

text \<open>
  C2, amended. When a mask is supplied and the function returns without dropout, the score at
  every position where the mask is zero has been replaced by \<open>- fmax\<close>, the minimum finite
  value, before normalisation, and the score at every other position is the unmasked score
  (bias included). On a row whose scores after bias and mask are all finite, and whose length
  does not exceed \<open>fmax\<close>, the weight at a masked position is finite, non-negative and at most
  \<open>exp (- fmax - s)\<close> for every score \<open>s\<close> at an unmasked position of the row. So the weight
  is close to 0 as soon as the row has an unmasked position whose score is finite and lies
  well above \<open>- fmax\<close>.
\<close>

theorem masked_weight_bound:
  assumes w: "dot_product_attention_weights_float bernoulli fmax query key bias (Some m)
             bd dropout_rng rate det = Inr w"
    and nd: "det \<or> rate \<le> 0"
  shows "\<exists>a s. attention_scores_float fmax query key bias = Inr a \<and>
           masked_scores_float fmax query key bias (Some m) = Inr s \<and>
           shape s = shape w \<and>
           (\<forall>idx. elem s idx = (if fl_true (elem m (bc_index (shape m) idx))
                                then elem a (bc_index (shape a) idx) else Fin (- fmax))) \<and>
           (\<forall>idx j k. real (last (shape w)) \<le> fmax \<and>
                (\<forall>i<last (shape w). is_fin (elem s (idx @ [i]))) \<and>
                j < last (shape w) \<and> k < last (shape w) \<and>
                \<not> fl_true (elem m (bc_index (shape m) (idx @ [j]))) \<and>
                fl_true (elem m (bc_index (shape m) (idx @ [k]))) \<longrightarrow>
              (\<exists>p. elem w (idx @ [j]) = Fin p \<and> 0 \<le> p \<and>
                   p \<le> exp (- fmax - fl_real (elem a (bc_index (shape a) (idx @ [k]))))))"
proof -
  from weights_softmax_float[OF w nd] obtain s where
    s: "masked_scores_float fmax query key bias (Some m) = Inr s"
    and sm: "softmax_float fmax s = Inr w"
    by blast
  from masked_scores_float_Some[OF s] obtain a where
    a: "attention_scores_float fmax query key bias = Inr a" and
    el: "\<forall>idx. elem s idx = (if fl_true (elem m (bc_index (shape m) idx))
                                then elem a (bc_index (shape a) idx) else Fin (- fmax))"
    by blast
  have sh: "shape w = shape s" using sm by (rule softmax_float_Inr)
  have "\<exists>p. elem w (idx @ [j]) = Fin p \<and> 0 \<le> p \<and>
            p \<le> exp (- fmax - fl_real (elem a (bc_index (shape a) (idx @ [k]))))"
    if len: "real (last (shape w)) \<le> fmax"
      and fin: "\<forall>i<last (shape w). is_fin (elem s (idx @ [i]))"
      and j: "j < last (shape w)" and k: "k < last (shape w)"
      and mj: "\<not> fl_true (elem m (bc_index (shape m) (idx @ [j])))"
      and mk: "fl_true (elem m (bc_index (shape m) (idx @ [k])))" for idx j k
  proof -
    have sj: "elem s (idx @ [j]) = Fin (- fmax)" using el mj by simp
    have sk: "elem s (idx @ [k]) = elem a (bc_index (shape a) (idx @ [k]))" using el mk by simp
    show ?thesis
      using softmax_float_upper[OF sm fin[unfolded sh] len[unfolded sh] j[unfolded sh] k[unfolded sh]]
      by (simp add: sj sk)
  qed
  then have bound: "\<forall>idx j k. real (last (shape w)) \<le> fmax \<and>
                (\<forall>i<last (shape w). is_fin (elem s (idx @ [i]))) \<and>
                j < last (shape w) \<and> k < last (shape w) \<and>
                \<not> fl_true (elem m (bc_index (shape m) (idx @ [j]))) \<and>
                fl_true (elem m (bc_index (shape m) (idx @ [k]))) \<longrightarrow>
              (\<exists>p. elem w (idx @ [j]) = Fin p \<and> 0 \<le> p \<and>
                   p \<le> exp (- fmax - fl_real (elem a (bc_index (shape a) (idx @ [k])))))"
    by blast
  show ?thesis
  proof (intro exI conjI)
    show "attention_scores_float fmax query key bias = Inr a" by (rule a)
    show "masked_scores_float fmax query key bias (Some m) = Inr s" by (rule s)
    show "shape s = shape w" by (rule sh[symmetric])
    show "\<forall>idx. elem s idx = (if fl_true (elem m (bc_index (shape m) idx))
                                then elem a (bc_index (shape a) idx) else Fin (- fmax))"
      by (rule el)
    show "\<forall>idx j k. real (last (shape w)) \<le> fmax \<and>
                (\<forall>i<last (shape w). is_fin (elem s (idx @ [i]))) \<and>
                j < last (shape w) \<and> k < last (shape w) \<and>
                \<not> fl_true (elem m (bc_index (shape m) (idx @ [j]))) \<and>
                fl_true (elem m (bc_index (shape m) (idx @ [k]))) \<longrightarrow>
              (\<exists>p. elem w (idx @ [j]) = Fin p \<and> 0 \<le> p \<and>
                   p \<le> exp (- fmax - fl_real (elem a (bc_index (shape a) (idx @ [k])))))"
      by (rule bound)
  qed
qed

theorem masked_weight_bound_witness:
  "elem mask_first_key_float [0, 0, 0] = Fin 1 \<and> elem mask_first_key_float [0, 0, 1] = Fin 0 \<and>
   real 2 \<le> float32_max \<and>
   shape (projr (dot_product_attention_weights_float keep_everything float32_max
      (full [1, 1, 1] (Fin 0)) (full [2, 1, 1] (Fin 0)) None (Some mask_first_key_float)
      True None 0 True)) = [1, 1, 2] \<and>
   elem (projr (masked_scores_float float32_max (full [1, 1, 1] (Fin 0)) (full [2, 1, 1] (Fin 0))
      None (Some mask_first_key_float))) [0, 0, 0] = Fin 0 \<and>
   elem (projr (masked_scores_float float32_max (full [1, 1, 1] (Fin 0)) (full [2, 1, 1] (Fin 0))
      None (Some mask_first_key_float))) [0, 0, 1] = Fin (- float32_max) \<and>
   is_fin (elem (projr (dot_product_attention_weights_float keep_everything float32_max
      (full [1, 1, 1] (Fin 0)) (full [2, 1, 1] (Fin 0)) None (Some mask_first_key_float)
      True None 0 True)) [0, 0, 1]) \<and>
   0 \<le> fl_real (elem (projr (dot_product_attention_weights_float keep_everything float32_max
      (full [1, 1, 1] (Fin 0)) (full [2, 1, 1] (Fin 0)) None (Some mask_first_key_float)
      True None 0 True)) [0, 0, 1]) \<and>
   fl_real (elem (projr (dot_product_attention_weights_float keep_everything float32_max
      (full [1, 1, 1] (Fin 0)) (full [2, 1, 1] (Fin 0)) None (Some mask_first_key_float)
      True None 0 True)) [0, 0, 1]) \<le> exp (- float32_max - 0)"
proof -
  define r where "r = dot_product_attention_weights_float keep_everything float32_max
      (full [1, 1, 1] (Fin 0)) (full [2, 1, 1] (Fin 0)) None (Some mask_first_key_float)
      True None 0 True"
  have ok: "r = Inr (projr r)"
    unfolding r_def by (simp add: float_defs mask_first_key_float_def)
  have sh: "shape (projr r) = [1, 1, 2]"
    unfolding r_def by (simp add: float_defs mask_first_key_float_def)
  have nd: "True \<or> (0::real) \<le> 0" by simp
  have big: "real 2 \<le> float32_max" by (simp add: float32_max_def)
  from masked_weight_bound[OF ok[unfolded r_def] nd] obtain a s where
    a: "attention_scores_float float32_max (full [1, 1, 1] (Fin 0)) (full [2, 1, 1] (Fin 0)) None
          = Inr a" and
    s: "masked_scores_float float32_max (full [1, 1, 1] (Fin 0)) (full [2, 1, 1] (Fin 0)) None
          (Some mask_first_key_float) = Inr s" and
    el: "\<forall>idx. elem s idx =
           (if fl_true (elem mask_first_key_float (bc_index (shape mask_first_key_float) idx))
            then elem a (bc_index (shape a) idx) else Fin (- float32_max))" and
    bound: "\<forall>idx j k. real (last (shape (projr r))) \<le> float32_max \<and>
                (\<forall>i<last (shape (projr r)). is_fin (elem s (idx @ [i]))) \<and>
                j < last (shape (projr r)) \<and> k < last (shape (projr r)) \<and>
                \<not> fl_true (elem mask_first_key_float
                     (bc_index (shape mask_first_key_float) (idx @ [j]))) \<and>
                fl_true (elem mask_first_key_float
                     (bc_index (shape mask_first_key_float) (idx @ [k]))) \<longrightarrow>
              (\<exists>p. elem (projr r) (idx @ [j]) = Fin p \<and> 0 \<le> p \<and>
                   p \<le> exp (- float32_max - fl_real (elem a (bc_index (shape a) (idx @ [k])))))"
    unfolding r_def by blast
  have a0: "elem a idx = Fin 0" for idx
    using a by (auto simp: float_defs float32_max_def)
  have m0: "fl_true (elem mask_first_key_float (bc_index (shape mask_first_key_float) ([0, 0] @ [0])))"
    and m1: "\<not> fl_true (elem mask_first_key_float
                 (bc_index (shape mask_first_key_float) ([0, 0] @ [1])))"
    by (simp_all add: mask_first_key_float_def bc_index_def fl_true_def)
  have s0: "elem s ([0, 0] @ [0]) = Fin 0" and s1: "elem s ([0, 0] @ [1]) = Fin (- float32_max)"
    using m0 m1 el by (simp_all add: a0)
  have fin: "\<forall>i<last (shape (projr r)). is_fin (elem s ([0, 0] @ [i]))"
    using s0 s1 by (simp add: sh less_Suc_eq numeral_2_eq_2)
  have len: "real (last (shape (projr r))) \<le> float32_max" using big by (simp add: sh)
  have "real (last (shape (projr r))) \<le> float32_max \<and>
      (\<forall>i<last (shape (projr r)). is_fin (elem s ([0, 0] @ [i]))) \<and>
      1 < last (shape (projr r)) \<and> 0 < last (shape (projr r)) \<and>
      \<not> fl_true (elem mask_first_key_float
           (bc_index (shape mask_first_key_float) ([0, 0] @ [1]))) \<and>
      fl_true (elem mask_first_key_float
           (bc_index (shape mask_first_key_float) ([0, 0] @ [0])))"
    using len fin m0 m1 by (simp add: sh)
  then have "\<exists>p. elem (projr r) ([0, 0] @ [1]) = Fin p \<and> 0 \<le> p \<and>
             p \<le> exp (- float32_max - fl_real (elem a (bc_index (shape a) ([0, 0] @ [0]))))"
    by (rule bound[rule_format])
  then have "is_fin (elem (projr r) [0, 0, 1]) \<and> 0 \<le> fl_real (elem (projr r) [0, 0, 1]) \<and>
      fl_real (elem (projr r) [0, 0, 1]) \<le> exp (- float32_max - 0)"
    by (auto simp: a0)
  then have "elem mask_first_key_float [0, 0, 0] = Fin 1 \<and>
      elem mask_first_key_float [0, 0, 1] = Fin 0 \<and> real 2 \<le> float32_max \<and>
      shape (projr r) = [1, 1, 2] \<and>
      elem (projr (masked_scores_float float32_max (full [1, 1, 1] (Fin 0))
        (full [2, 1, 1] (Fin 0)) None (Some mask_first_key_float))) [0, 0, 0] = Fin 0 \<and>
      elem (projr (masked_scores_float float32_max (full [1, 1, 1] (Fin 0))
        (full [2, 1, 1] (Fin 0)) None (Some mask_first_key_float))) [0, 0, 1]
        = Fin (- float32_max) \<and>
      is_fin (elem (projr r) [0, 0, 1]) \<and> 0 \<le> fl_real (elem (projr r) [0, 0, 1]) \<and>
      fl_real (elem (projr r) [0, 0, 1]) \<le> exp (- float32_max - 0)"
    using s s0 s1 sh big by (simp add: mask_first_key_float_def)
  then show ?thesis unfolding r_def .
qed

text \<open>
  C10. When every key position of a row is masked, all scores of the row are \<open>big_neg\<close> and
  the softmax gives the uniform distribution: every weight of the row is 1 / key-length, which
  is positive, and the row sums to 1.
\<close>

theorem fully_masked_row_uniform:
  assumes w: "dot_product_attention_weights bernoulli big_neg query key bias (Some m)
             bd dropout_rng rate det = Inr w"
    and nd: "det \<or> rate \<le> 0"
    and row: "\<forall>j<last (shape w). elem m (bc_index (shape m) (idx @ [j])) = 0"
  shows "\<exists>s. masked_scores big_neg query key bias (Some m) = Inr s \<and>
           (\<forall>j<last (shape w). elem s (idx @ [j]) = big_neg) \<and>
           0 < last (shape w) \<and>
           (\<forall>j<last (shape w). elem w (idx @ [j]) = 1 / real (last (shape w))) \<and>
           (\<Sum>j\<leftarrow>[0..<last (shape w)]. elem w (idx @ [j])) = 1"
proof -
  from weights_softmax[OF w nd] obtain s where
    s: "masked_scores big_neg query key bias (Some m) = Inr s" and sm: "softmax s = Inr w"
    by blast
  have sh: "shape w = shape s" using sm by (rule softmax_Inr)
  have c: "\<forall>j<last (shape s). elem s (idx @ [j]) = big_neg"
    using masked_scores_Some[OF s] row by (auto simp: sh)
  have "elem w (idx @ [j]) = 1 / real (last (shape w))" if "j < last (shape w)" for j
    using softmax_constant_row[OF sm c, of j] that c by (simp add: sh)
  moreover have "0 < last (shape w)" using softmax_Inr(3)[OF sm] by (simp add: sh)
  ultimately show ?thesis using s c softmax_row_sum[OF sm, of idx] by (auto simp: sh)
qed

theorem fully_masked_row_uniform_witness:
  "elem (full [1, 1, 1, 3] (0::real)) (bc_index [1, 1, 1, 3] [0, 0, 0, 0]) = 0 \<and>
   elem (full [1, 1, 1, 3] (0::real)) (bc_index [1, 1, 1, 3] [0, 0, 0, 1]) = 0 \<and>
   elem (full [1, 1, 1, 3] (0::real)) (bc_index [1, 1, 1, 3] [0, 0, 0, 2]) = 0 \<and>
   shape (projr (dot_product_attention_weights keep_everything float32_min
      (full [1, 1, 1, 2] 4) (full [1, 3, 1, 2] 7) None (Some (full [1, 1, 1, 3] 0)) True None 0 True))
     = [1, 1, 1, 3] \<and>
   elem (projr (masked_scores float32_min (full [1, 1, 1, 2] 4) (full [1, 3, 1, 2] 7) None
      (Some (full [1, 1, 1, 3] 0)))) [0, 0, 0, 2] = float32_min \<and>
   elem (projr (dot_product_attention_weights keep_everything float32_min
      (full [1, 1, 1, 2] 4) (full [1, 3, 1, 2] 7) None (Some (full [1, 1, 1, 3] 0)) True None 0 True))
     [0, 0, 0, 2] = 1 / 3"
proof -
  define r where "r = dot_product_attention_weights keep_everything float32_min
      (full [1, 1, 1, 2] 4) (full [1, 3, 1, 2] 7) None (Some (full [1, 1, 1, 3] 0)) True None 0 True"
  have ok: "r = Inr (projr r)"
    unfolding r_def by (simp add: weights_defs)
  have sh: "shape (projr r) = [1, 1, 1, 3]"
    unfolding r_def by (simp add: weights_defs)
  have nd: "True \<or> (0::real) \<le> 0" by simp
  have row: "\<forall>j<last (shape (projr r)).
      elem (full [1, 1, 1, 3] (0::real)) (bc_index (shape (full [1, 1, 1, 3] (0::real))) ([0, 0, 0] @ [j])) = 0"
    by (simp add: full_def)
  from fully_masked_row_uniform[OF ok[unfolded r_def] nd row[unfolded r_def]] obtain s where
    s: "masked_scores float32_min (full [1, 1, 1, 2] 4) (full [1, 3, 1, 2] 7) None
          (Some (full [1, 1, 1, 3] 0)) = Inr s" and
    sc: "\<forall>j<last (shape (projr r)). elem s ([0, 0, 0] @ [j]) = float32_min" and
    un: "\<forall>j<last (shape (projr r)). elem (projr r) ([0, 0, 0] @ [j]) = 1 / real (last (shape (projr r)))"
    unfolding r_def by blast
  from sc un have "elem s [0, 0, 0, 2] = float32_min" "elem (projr r) [0, 0, 0, 2] = 1 / 3"
    by (simp_all add: sh)
  then show ?thesis
    using s sh by (simp add: r_def full_def)
qed

text \<open>
  The scores of a fully masked row are all \<open>- fmax\<close>, whatever the query, the key and the
  bias are, so the row is finite and the weights are uniform over floating-point values too,
  as long as the key length does not exceed \<open>fmax\<close>.
\<close>

lemma uniform_weights_on_masked_row_float:
  assumes w: "dot_product_attention_weights_float bernoulli fmax query key bias (Some m)
             bd dropout_rng rate det = Inr w"
    and nd: "det \<or> rate \<le> 0"
    and row: "\<forall>j<last (shape w). \<not> fl_true (elem m (bc_index (shape m) (idx @ [j])))"
    and len: "real (last (shape w)) \<le> fmax"
  shows "\<forall>j<last (shape w). elem w (idx @ [j]) = Fin (1 / real (last (shape w)))"
proof -
  from weights_softmax_float[OF w nd] obtain s where
    s: "masked_scores_float fmax query key bias (Some m) = Inr s"
    and sm: "softmax_float fmax s = Inr w"
    by blast
  have sh: "shape w = shape s" using sm by (rule softmax_float_Inr)
  have L: "0 < last (shape s)" using sm by (rule softmax_float_Inr)
  then have fmax: "1 \<le> fmax" using len by (simp add: sh)
  have c: "\<forall>j<last (shape s). elem s (idx @ [j]) = Fin (- fmax)"
    using masked_scores_float_Some[OF s] row by (auto simp: sh)
  then have fin: "\<forall>j<last (shape s). is_fin (elem s (idx @ [j]))" by simp
  define xs where "xs = map (\<lambda>j. fl_real (elem s (idx @ [j]))) [0..<last (shape s)]"
  have xs: "xs = replicate (last (shape s)) (- fmax)"
    using c by (auto simp: xs_def list_eq_iff_nth_eq)
  have mx: "Max (set xs) = - fmax" using L by (simp add: xs)
  have u: "unnormalized fmax (- fmax) (- fmax) = 1" using fmax by (intro unnormalized_max) simp
  have S: "(\<Sum>x\<leftarrow>xs. unnormalized fmax x (- fmax)) = real (last (shape s))"
    by (simp add: xs u sum_list_replicate)
  note el = softmax_float_finite_row(3)[OF sm fin len[unfolded sh], folded xs_def]
  have "\<forall>j<last (shape s). elem w (idx @ [j]) =
      Fin (unnormalized fmax (fl_real (elem s (idx @ [j]))) (- fmax) / real (last (shape s)))"
    using el by (simp only: mx S)
  then show ?thesis using c by (simp add: sh u)
qed

section \<open>Properties of the mask utilities\<close>

subsection \<open>Broadcasting of shapes and indices\<close>

lemma map2_bc_in_bounds:
  "list_all2 (<) idx s \<Longrightarrow> map2 (\<lambda>d i. if d = Suc 0 then 0 else i) s idx = idx"
  by (induction idx s rule: list_all2_induct) auto

lemma bc_index_in_bounds: "in_bounds idx s \<Longrightarrow> bc_index s idx = idx"
  unfolding in_bounds_def bc_index_def
  by (simp add: map2_bc_in_bounds list_all2_lengthD)

lemma bc_index_append:
  "length b = length bs \<Longrightarrow> length i = length s \<Longrightarrow>
   bc_index (bs @ s) (b @ i) = bc_index bs b @ bc_index s i"
  by (simp add: bc_index_def)

lemma bc_index_last: "bc_index [L] (c @ [k]) = [if L = 1 then 0 else k]"
  by (simp add: bc_index_def)

lemma broadcast_shapes_same_length:
  "length s = length t \<Longrightarrow>
   broadcast_shapes s t =
     (if list_all2 (\<lambda>x y. x = y \<or> x = 1 \<or> y = 1) s t
      then Some (map2 (\<lambda>x y. if x = 1 then y else x) s t) else None)"
  by (simp add: broadcast_shapes_def pad_left_def Let_def)

lemma map2_bc_self: "map2 (\<lambda>x y. if x = Suc 0 then y else x) bs bs = bs"
  by (induction bs) auto

lemma broadcast_shapes_prefix:
  "length s = length t \<Longrightarrow> list_all2 (\<lambda>x y. x = y \<or> x = 1 \<or> y = 1) s t \<Longrightarrow>
   broadcast_shapes (bs @ s) (bs @ t) = Some (bs @ map2 (\<lambda>x y. if x = 1 then y else x) s t)"
  by (simp add: broadcast_shapes_same_length list_all2_appendI list_all2_refl map2_bc_self)

lemma map2_bc_replicate:
  "length bs = n \<Longrightarrow> map2 (\<lambda>x y. if x = Suc 0 then y else x) (replicate n (Suc 0)) bs = bs"
  by (induction bs arbitrary: n) auto

lemma list_all2_bc_replicate:
  "length bs = n \<Longrightarrow>
   list_all2 (\<lambda>x y. x = y \<or> x = Suc 0 \<or> y = Suc 0) (replicate n (Suc 0)) bs"
  by (induction bs arbitrary: n) auto

lemma broadcast_shapes_trailing: "broadcast_shapes [L] (bs @ [L]) = Some (bs @ [L])"
  by (simp add: broadcast_shapes_def pad_left_def Let_def list_all2_appendI
      list_all2_bc_replicate map2_bc_replicate)

text \<open>
  C7. For every input \<open>x\<close> of shape \<^verbatim>\<open>[batch..., L]\<close>, \<open>make_causal_mask\<close> returns a mask
  of shape \<^verbatim>\<open>[batch..., 1, L, L]\<close> (after \<open>extra_batch_dims\<close> leading axes of size 1) whose
  entry at query position \<open>i\<close> and key position \<open>j\<close> is 1 (true) when \<open>i \<ge> j\<close> and 0 (false)
  otherwise. For a sequence of length 5 the query position 2 admits the key positions 0, 1, 2
  and not 3, 4.
\<close>

theorem make_causal_mask_entries:
  assumes x: "shape x = bs @ [L]" and b: "in_bounds b bs" and i: "i < L" and j: "j < L"
  shows "\<exists>m. make_causal_mask x e = Inr m \<and> shape m = replicate e 1 @ bs @ [1, L, L] \<and>
     elem m (replicate e 0 @ b @ [0, i, j]) = (if j \<le> i then 1 else 0)"
proof -
  have len: "length b = length bs" using b by (simp add: in_bounds_def list_all2_lengthD)
  have bb: "bc_index bs b = b" using b by (rule bc_index_in_bounds)
  note pair = broadcast_shapes_prefix[of "[L, 1]" "[1, L]" bs, simplified]
  have idxs: "broadcast_to (arange L) (bs @ [L]) =
      Inr \<lparr>shape = bs @ [L], elem = (\<lambda>idx. int (last (bc_index [L] idx)))\<rparr>"
    by (simp add: broadcast_to_def broadcast_shapes_trailing arange_def)
  show ?thesis
    using i j len bb
    by (simp add: make_causal_mask_def x idxs make_attention_mask_def expand_dims_neg_def
        ndim_def expand_dims_at_def greater_equal_def broadcast_binary_def pair astype_def
        expand_dims_leading_def bc_index_append bc_index_last)
      (auto simp: bc_index_def)
qed

theorem make_causal_mask_entries_witness:
  "in_bounds [] [] \<and>
   shape (projr (make_causal_mask (full [5] (0::real)) 0)) = [1, 5, 5] \<and>
   map (\<lambda>j. elem (projr (make_causal_mask (full [5] (0::real)) 0)) [0, 2, j]) [0, 1, 2, 3, 4]
     = [1, 1, 1, 0, 0]"
proof -
  define x where "x = full [5] (0::real)"
  have x: "shape x = [] @ [5]" by (simp add: x_def full_def)
  have b: "in_bounds [] []" by (simp add: in_bounds_def)
  have *: "shape (projr (make_causal_mask x 0)) = [1, 5, 5] \<and>
      elem (projr (make_causal_mask x 0)) [0, 2, j] = (if j \<le> 2 then 1 else 0)" if "j < 5" for j
    using make_causal_mask_entries[OF x b, of 2 j 0] that by auto
  show ?thesis
    using *[of 0] *[of 1] *[of 2] *[of 3] *[of 4] b by (simp add: x_def)
qed


lemma bc_index_compose:
  assumes "length s = length t" and "broadcast_shapes s t = Some r" and "length idx = length s"
  shows "bc_index s (bc_index r idx) = bc_index s idx"
    and "bc_index t (bc_index r idx) = bc_index t idx"
  using assms
  by (auto simp: bc_index_def broadcast_shapes_same_length list_eq_iff_nth_eq
      list_all2_conv_all_nth split: if_splits)

lemma broadcast_shapes_length:
  "length s = length t \<Longrightarrow> broadcast_shapes s t = Some r \<Longrightarrow> length r = length s"
  by (auto simp: broadcast_shapes_same_length split: if_splits)

lemma logical_and_Inr:
  assumes "logical_and m other = Inr r"
  shows "broadcast_shapes (shape m) (shape other) = Some (shape r)"
    and "elem r idx = of_bool (elem m (bc_index (shape m) idx) \<noteq> 0 \<and>
           elem other (bc_index (shape other) idx) \<noteq> 0)"
  using assms by (auto simp: logical_and_def broadcast_binary_def split: option.splits)

lemma logical_and_all_Cons_Inr:
  assumes "logical_and_all m (other # ms) = Inr r"
  obtains m' where "logical_and m other = Inr m'" and "logical_and_all m' ms = Inr r"
  using assms by (cases "logical_and m other") simp_all

lemma logical_and_ndim:
  assumes "logical_and m other = Inr m'" and "ndim other = ndim m"
  shows "ndim m' = ndim m"
proof -
  have "broadcast_shapes (shape m) (shape other) = Some (shape m')"
    using assms(1) by (rule logical_and_Inr)
  moreover have "length (shape m) = length (shape other)"
    using assms(2) by (simp only: ndim_def)
  ultimately have "length (shape m') = length (shape m)"
    by (rule broadcast_shapes_length[rotated])
  then show ?thesis by (simp only: ndim_def)
qed

lemma logical_and_all_ndim:
  "logical_and_all m ms = Inr r \<Longrightarrow> list_all (\<lambda>x. ndim x = ndim m) ms \<Longrightarrow> ndim r = ndim m"
proof (induction ms arbitrary: m)
  case Nil
  then show ?case by simp
next
  case (Cons other ms)
  from Cons.prems(1) obtain m' where m': "logical_and m other = Inr m'"
    and rest: "logical_and_all m' ms = Inr r"
    by (rule logical_and_all_Cons_Inr)
  have o: "ndim other = ndim m" and ms: "list_all (\<lambda>x. ndim x = ndim m) ms"
    using Cons.prems(2) by simp_all
  have nd: "ndim m' = ndim m" using m' o by (rule logical_and_ndim)
  have "list_all (\<lambda>x. ndim x = ndim m') ms" using ms by (simp only: nd)
  with rest have "ndim r = ndim m'" by (rule Cons.IH)
  then show ?case by (simp only: nd)
qed


lemma logical_and_all_elem:
  assumes "logical_and_all m (other # ms) = Inr r"
    and "list_all (\<lambda>x. ndim x = ndim m) (other # ms)"
    and "in_bounds idx (shape r)"
  shows "elem r idx =
     of_bool (list_all (\<lambda>x. elem x (bc_index (shape x) idx) \<noteq> 0) (m # other # ms))"
  using assms
proof (induction ms arbitrary: m other)
  case Nil
  from Nil.prems(1) obtain m' where m': "logical_and m other = Inr m'"
    and rest: "logical_and_all m' [] = Inr r"
    by (rule logical_and_all_Cons_Inr)
  from rest have "r = m'" by simp
  then show ?case by (simp add: logical_and_Inr(2)[OF m'])
next
  case (Cons next_mask ms)
  from Cons.prems(1) obtain m' where m': "logical_and m other = Inr m'"
    and rest: "logical_and_all m' (next_mask # ms) = Inr r"
    by (rule logical_and_all_Cons_Inr)
  have o: "ndim other = ndim m" and tl: "list_all (\<lambda>x. ndim x = ndim m) (next_mask # ms)"
    using Cons.prems(2) by simp_all
  have bs: "broadcast_shapes (shape m) (shape other) = Some (shape m')"
    using m' by (rule logical_and_Inr)
  have same: "length (shape m) = length (shape other)"
    using o by (simp only: ndim_def)
  have nd: "ndim m' = ndim m" using m' o by (rule logical_and_ndim)
  have ranks: "list_all (\<lambda>x. ndim x = ndim m') (next_mask # ms)"
    using tl by (simp only: nd)
  have "ndim r = ndim m'" using rest ranks by (rule logical_and_all_ndim)
  then have "ndim r = ndim m" by (simp only: nd)
  then have "length (shape r) = length (shape m)" by (simp only: ndim_def)
  moreover have "length idx = length (shape r)"
    using Cons.prems(3) unfolding in_bounds_def by (rule list_all2_lengthD)
  ultimately have len: "length idx = length (shape m)" by simp
  have ih: "elem r idx =
      of_bool (list_all (\<lambda>x. elem x (bc_index (shape x) idx) \<noteq> 0) (m' # next_mask # ms))"
    using rest ranks Cons.prems(3) by (rule Cons.IH)
  have "elem m' (bc_index (shape m') idx) =
      of_bool (elem m (bc_index (shape m) (bc_index (shape m') idx)) \<noteq> 0 \<and>
               elem other (bc_index (shape other) (bc_index (shape m') idx)) \<noteq> 0)"
    by (rule logical_and_Inr(2)[OF m'])
  then have head: "elem m' (bc_index (shape m') idx) \<noteq> 0 \<longleftrightarrow>
      elem m (bc_index (shape m) idx) \<noteq> 0 \<and> elem other (bc_index (shape other) idx) \<noteq> 0"
    by (simp add: bc_index_compose[OF same bs len])
  show ?case unfolding ih by (simp add: head)
qed

lemma logical_and_same_shape:
  assumes "shape other = shape m"
  shows "\<exists>m'. logical_and m other = Inr m' \<and> shape m' = shape m"
proof -
  have "broadcast_shapes (shape m) (shape m) = Some (shape m)"
    by (simp add: broadcast_shapes_same_length list_all2_refl map2_bc_self)
  then show ?thesis
    by (simp add: logical_and_def broadcast_binary_def assms)
qed

lemma logical_and_all_same_shape:
  "list_all (\<lambda>x. shape x = shape m) ms \<Longrightarrow>
   \<exists>r. logical_and_all m ms = Inr r \<and> shape r = shape m"
proof (induction ms arbitrary: m)
  case Nil
  then show ?case by simp
next
  case (Cons other ms)
  have o: "shape other = shape m" and tl: "list_all (\<lambda>x. shape x = shape m) ms"
    using Cons.prems by simp_all
  from logical_and_same_shape[OF o] obtain m' where
    m': "logical_and m other = Inr m'" and sh: "shape m' = shape m"
    by blast
  have "list_all (\<lambda>x. shape x = shape m') ms" using tl by (simp only: sh)
  then obtain r where "logical_and_all m' ms = Inr r" and "shape r = shape m'"
    using Cons.IH by blast
  then show ?case by (simp add: m' sh)
qed


lemma map_sum_Some_Inr: "map_sum id Some x = Inr (Some r) \<longleftrightarrow> x = Inr r"
  by (cases x) auto

text \<open>
  C6. \<open>combine_masks\<close> returns \<open>None\<close> when all its arguments are \<open>None\<close>, in particular for
  two of them. When masks are given and it returns, an entry of the result is true exactly
  when the entries of all given masks are (each read with broadcasting), and is the cast 0 or
  1 of that truth value as soon as two masks are given; it does return when the given masks
  have one shape. When two given masks differ in rank it raises.
\<close>

theorem combine_masks_spec:
  "(list_all (\<lambda>m. m = None) masks \<longrightarrow> combine_masks masks = Inr None) \<and>
   combine_masks [None, None] = Inr None \<and>
   (list_all (\<lambda>m. shape m = s) (List.map_filter id masks) \<and> List.map_filter id masks \<noteq> [] \<longrightarrow>
      (\<exists>r. combine_masks masks = Inr (Some r) \<and> shape r = s)) \<and>
   (combine_masks masks = Inr (Some r) \<and> in_bounds idx (shape r) \<longrightarrow>
      (elem r idx \<noteq> 0 \<longleftrightarrow>
         list_all (\<lambda>m. elem m (bc_index (shape m) idx) \<noteq> 0) (List.map_filter id masks)) \<and>
      (2 \<le> length (List.map_filter id masks) \<longrightarrow> elem r idx = 0 \<or> elem r idx = 1)) \<and>
   (Some a \<in> set masks \<and> Some b \<in> set masks \<and> ndim a \<noteq> ndim b \<longrightarrow>
      combine_masks masks = Inl (AssertionError ''masks must have same rank''))"
proof (intro conjI impI)
  assume "list_all (\<lambda>m. m = None) masks"
  then have "List.map_filter id masks = []"
    by (induction masks) (auto simp: List.map_filter_simps)
  then show "combine_masks masks = Inr None" by (simp add: combine_masks_def)
next
  show "combine_masks [None, None] = Inr None"
    by (simp add: combine_masks_def List.map_filter_simps)
next
  assume "list_all (\<lambda>m. shape m = s) (List.map_filter id masks) \<and> List.map_filter id masks \<noteq> []"
  then obtain m ms where ms: "List.map_filter id masks = m # ms"
    and sh: "shape m = s" "list_all (\<lambda>x. shape x = shape m) ms"
    by (cases "List.map_filter id masks") auto
  from logical_and_all_same_shape[OF sh(2)] obtain r where
    "logical_and_all m ms = Inr r" "shape r = shape m" by blast
  moreover have "list_all (\<lambda>x. ndim x = ndim m) ms"
    using sh(2) by (simp add: ndim_def list_all_iff)
  ultimately show "\<exists>r. combine_masks masks = Inr (Some r) \<and> shape r = s"
    using sh(1) by (simp add: combine_masks_def ms)
next
  assume asm: "combine_masks masks = Inr (Some r) \<and> in_bounds idx (shape r)"
  then obtain m ms where ms: "List.map_filter id masks = m # ms"
    and ranks: "list_all (\<lambda>x. ndim x = ndim m) ms"
    and r: "logical_and_all m ms = Inr r"
    by (auto simp: combine_masks_def map_sum_Some_Inr split: list.splits if_splits)
  show "elem r idx \<noteq> 0 \<longleftrightarrow>
      list_all (\<lambda>m. elem m (bc_index (shape m) idx) \<noteq> 0) (List.map_filter id masks)"
  proof (cases ms)
    case Nil
    then show ?thesis using r asm ms by (simp add: bc_index_in_bounds)
  next
    case (Cons other rest)
    then show ?thesis
      using logical_and_all_elem[of m other rest r idx] r ranks asm ms by simp
  qed
  show "elem r idx = 0 \<or> elem r idx = 1" if "2 \<le> length (List.map_filter id masks)"
  proof (cases ms)
    case Nil
    then show ?thesis using that ms by simp
  next
    case (Cons other rest)
    then show ?thesis
      using logical_and_all_elem[of m other rest r idx] r ranks asm by (simp add: of_bool_def)
  qed
next
  assume asm: "Some a \<in> set masks \<and> Some b \<in> set masks \<and> ndim a \<noteq> ndim b"
  then have a: "a \<in> set (List.map_filter id masks)" and b: "b \<in> set (List.map_filter id masks)"
    by (auto simp: List.map_filter_def intro: rev_image_eqI)
  then obtain m ms where ms: "List.map_filter id masks = m # ms"
    by (cases "List.map_filter id masks") auto
  have "\<not> list_all (\<lambda>x. ndim x = ndim m) (m # ms)"
    using a b asm unfolding ms list_all_iff by metis
  then show "combine_masks masks = Inl (AssertionError ''masks must have same rank'')"
    by (simp add: combine_masks_def ms)
qed


theorem combine_masks_spec_witness:
  "combine_masks [None, None, None] = Inr None \<and>
   shape (the (projr (combine_masks [Some mask_first_key, None, Some (full [1, 1, 2] 1)])))
     = [1, 1, 2] \<and>
   elem (the (projr (combine_masks [Some mask_first_key, None, Some (full [1, 1, 2] 1)])))
     [0, 0, 0] = 1 \<and>
   elem (the (projr (combine_masks [Some mask_first_key, None, Some (full [1, 1, 2] 1)])))
     [0, 0, 1] = 0 \<and>
   combine_masks [Some (full [2] 1), Some (full [1, 2] 1)]
     = Inl (AssertionError ''masks must have same rank'')"
proof -
  define masks where "masks = [Some mask_first_key, None, Some (full [1, 1, 2] (1::real))]"
  have given: "List.map_filter id masks = [mask_first_key, full [1, 1, 2] 1]"
    by (simp add: masks_def List.map_filter_simps)
  have none: "combine_masks [None, None, None] = Inr None"
    using combine_masks_spec[of "[None, None, None]"] by simp
  have "list_all (\<lambda>m. shape m = [1, 1, 2]) (List.map_filter id masks) \<and>
      List.map_filter id masks \<noteq> []"
    by (simp add: given mask_first_key_def full_def)
  with combine_masks_spec[of masks "[1, 1, 2]"] obtain r where
    r: "combine_masks masks = Inr (Some r)" and sh: "shape r = [1, 1, 2]"
    by blast
  have e0: "elem r [0, 0, 0] = 1"
    using combine_masks_spec[of masks "[1, 1, 2]" r "[0, 0, 0]"] r sh
    by (auto simp: given in_bounds_def bc_index_def mask_first_key_def full_def)
  have e1: "elem r [0, 0, 1] = 0"
    using combine_masks_spec[of masks "[1, 1, 2]" r "[0, 0, 1]"] r sh
    by (auto simp: given in_bounds_def bc_index_def mask_first_key_def full_def)
  have "ndim (full [2] (1::real)) \<noteq> ndim (full [1, 2] (1::real))"
    by (simp add: ndim_def full_def)
  then have rank: "combine_masks [Some (full [2] 1), Some (full [1, 2] 1)]
      = Inl (AssertionError ''masks must have same rank'')"
    using combine_masks_spec[of "[Some (full [2] 1), Some (full [1, 2] 1)]" _ _ _
        "full [2] 1" "full [1, 2] 1"]
    by simp
  show ?thesis
    using none r sh e0 e1 rank by (simp add: masks_def)
qed

section \<open>Properties of the module\<close>

lemmas call_defs = MultiHeadAttention_call_def project_inputs_def default_inputs_def
  decode_step_def dynamic_update_slice_def clamp_start_def in_window_def decode_causal_mask_def
  combine_masks_def logical_and_def broadcast_to_def arange_def attend_def
  resolve_deterministic_def first_from_def
  MultiHeadAttention_init_def init_cache_def zeros_def
  linear_general_def linear_general_out_def default_attention_fn_def example_module_def
  decode_once_def dot_product_attention_def einsum_av_def

lemmas example_defs = call_defs weights_defs example_decoder_def

subsection \<open>The cache write and the causal mask of one decode step\<close>

lemma in_bounds_snoc3:
  "in_bounds (b @ [p, h, d]) (bs @ [L, H, D]) \<longleftrightarrow>
     in_bounds b bs \<and> p < L \<and> h < H \<and> d < D"
proof (cases "length b = length bs")
  case True
  then show ?thesis by (simp add: in_bounds_def list_all2_append)
next
  case False
  then show ?thesis by (auto simp: in_bounds_def dest: list_all2_lengthD)
qed

lemma clamp_start_batch:
  "map2 (\<lambda>i (d, u). clamp_start i d u) (replicate (length bs) 0) (zip bs bs)
     = replicate (length bs) 0"
  by (induction bs) (simp_all add: clamp_start_def)

lemma clamp_start_in_range: "0 \<le> i \<Longrightarrow> i < int L \<Longrightarrow> clamp_start i L 1 = nat i"
  by (simp add: clamp_start_def)

lemma in_window_batch:
  "length b = length bs \<Longrightarrow>
   list_all2 (\<lambda>i (s, u). s \<le> i \<and> i < s + u) b (zip (replicate (length bs) 0) bs)
     = in_bounds b bs"
  unfolding in_bounds_def
  by (induction b bs rule: list_induct2) simp_all

lemma map2_minus_zeros: "map2 (-) b (replicate (length b) (0::nat)) = b"
  by (induction b) simp_all

lemma dynamic_update_slice_position:
  assumes op: "shape operand = bs @ [L, H, D]" and up: "shape update = bs @ [1, H, D]"
    and lo: "0 \<le> i" and hi: "i < int L"
  shows "\<exists>r. dynamic_update_slice operand update (replicate (length bs) 0 @ [i, 0, 0]) = Inr r \<and>
           shape r = shape operand \<and>
           (\<forall>b p h d. in_bounds (b @ [p, h, d]) (shape operand) \<longrightarrow>
              elem r (b @ [p, h, d]) =
                (if int p = i then elem update (b @ [0, h, d]) else elem operand (b @ [p, h, d])))"
proof -
  have le: "list_all2 (\<le>) (bs @ [1, H, D]) (bs @ [L, H, D])"
    using lo hi by (simp add: list_all2_appendI list_all2_refl)
  have starts: "map2 (\<lambda>i (d, u). clamp_start i d u) (replicate (length bs) 0 @ [i, 0, 0])
      (zip (bs @ [L, H, D]) (bs @ [1, H, D])) = replicate (length bs) 0 @ [nat i, 0, 0]"
    using lo hi by (simp add: clamp_start_batch clamp_start_in_range) (simp add: clamp_start_def)
  have res: "dynamic_update_slice operand update (replicate (length bs) 0 @ [i, 0, 0]) =
      Inr \<lparr>shape = shape operand,
           elem = (\<lambda>idx. if in_window idx (replicate (length bs) 0 @ [nat i, 0, 0]) (shape update)
                          then elem update (map2 (-) idx (replicate (length bs) 0 @ [nat i, 0, 0]))
                          else elem operand idx)\<rparr>"
    using le starts by (simp add: dynamic_update_slice_def ndim_def op up Let_def)
  have el: "(if in_window (b @ [p, h, d]) (replicate (length bs) 0 @ [nat i, 0, 0]) (shape update)
             then elem update (map2 (-) (b @ [p, h, d]) (replicate (length bs) 0 @ [nat i, 0, 0]))
             else elem operand (b @ [p, h, d])) =
            (if int p = i then elem update (b @ [0, h, d]) else elem operand (b @ [p, h, d]))"
    if ib: "in_bounds (b @ [p, h, d]) (shape operand)" for b p h d
  proof -
    from ib have b: "in_bounds b bs" and p: "p < L" and h: "h < H" and d: "d < D"
      by (simp_all add: op in_bounds_snoc3)
    have len: "length b = length bs" using b by (simp add: in_bounds_def list_all2_lengthD)
    have win: "in_window (b @ [p, h, d]) (replicate (length bs) 0 @ [nat i, 0, 0]) (bs @ [1, H, D])
        \<longleftrightarrow> int p = i"
      using b h d lo by (auto simp: in_window_def len list_all2_append in_window_batch)
    have sub: "map2 (-) (b @ [p, h, d]) (replicate (length bs) 0 @ [nat i, 0, 0]) = b @ [p - nat i, h, d]"
      using map2_minus_zeros[of b] by (simp add: len)
    have win': "in_window (b @ [p, h, d]) (replicate (length bs) 0 @ [nat i, 0, 0]) (shape update)
        \<longleftrightarrow> int p = i"
      using win by (simp add: up)
    show ?thesis
      unfolding win' sub using lo by auto
  qed
  show ?thesis
    unfolding res using el by simp
qed


lemma decode_causal_mask_entries:
  "\<exists>causal. decode_causal_mask bs L i = Inr causal \<and> shape causal = bs @ [1, 1, L] \<and>
     (\<forall>b p. in_bounds (b @ [0, 0, p]) (shape causal) \<longrightarrow>
        elem causal (b @ [0, 0, p]) = (if int p \<le> i then 1 else 0))"
proof -
  have bs: "broadcast_shapes [L] (bs @ [1, 1, L]) = Some (bs @ [1, 1, L])"
    using broadcast_shapes_trailing[of L "bs @ [1, 1]"] by simp
  have "bc_index [L] (b @ [0, 0, p]) = [p]" if "in_bounds (b @ [0, 0, p]) (bs @ [1, 1, L])" for b p
    using that bc_index_last[of L "b @ [0, 0]" p] by (auto simp: in_bounds_snoc3)
  then show ?thesis
    using bs by (simp add: decode_causal_mask_def broadcast_to_def astype_def arange_def)
qed

lemma decode_step_in_range:
  assumes ck: "shape (cached_key c) = bs @ [L, H, D]"
    and cv: "shape (cached_value c) = bs @ [L, H, D]"
    and q: "shape query = bs @ [1, H, D]"
    and k: "shape key = bs @ [1, H, D]"
    and v: "shape value = bs @ [1, H, D]"
    and lo: "0 \<le> sint (cache_index c)" and hi: "sint (cache_index c) < int L"
  shows "\<exists>key' value' causal.
     dynamic_update_slice (cached_key c) key
       (replicate (length bs) 0 @ [sint (cache_index c), 0, 0]) = Inr key' \<and>
     dynamic_update_slice (cached_value c) value
       (replicate (length bs) 0 @ [sint (cache_index c), 0, 0]) = Inr value' \<and>
     decode_causal_mask bs L (sint (cache_index c)) = Inr causal \<and>
     decode_step (Some c) query key value msk =
       (case combine_masks [msk, Some causal] of
          Inl e \<Rightarrow> Inl e
        | Inr msk' \<Rightarrow> Inr (key', value', msk'),
        Some \<lparr>cached_key = key', cached_value = value', cache_index = cache_index c + 1\<rparr>)"
proof -
  from dynamic_update_slice_position[OF ck k lo hi] obtain key' where
    key': "dynamic_update_slice (cached_key c) key
       (replicate (length bs) 0 @ [sint (cache_index c), 0, 0]) = Inr key'" by blast
  from dynamic_update_slice_position[OF cv v lo hi] obtain value' where
    value': "dynamic_update_slice (cached_value c) value
       (replicate (length bs) 0 @ [sint (cache_index c), 0, 0]) = Inr value'" by blast
  from decode_causal_mask_entries[of bs L "sint (cache_index c)"] obtain causal where
    causal: "decode_causal_mask bs L (sint (cache_index c)) = Inr causal" by blast
  have "decode_step (Some c) query key value msk =
       (case combine_masks [msk, Some causal] of
          Inl e \<Rightarrow> Inl e
        | Inr msk' \<Rightarrow> Inr (key', value', msk'),
        Some \<lparr>cached_key = key', cached_value = value', cache_index = cache_index c + 1\<rparr>)"
    by (simp add: decode_step_def ck q shape_snoc3 Let_def key' value' causal split: sum.splits)
  then show ?thesis using key' value' causal by blast
qed


lemma dynamic_update_slice_shape:
  "dynamic_update_slice operand update start_indices = Inr r \<Longrightarrow> shape r = shape operand"
  by (auto simp: dynamic_update_slice_def Let_def split: if_splits)

lemma combine_masks_pair_error:
  assumes "combine_masks [msk, Some causal] = Inl e"
  shows "e = AssertionError ''masks must have same rank'' \<or>
         e = ValueError ''Incompatible shapes for broadcasting''"
proof (cases msk)
  case None
  with assms show ?thesis
    by (simp add: combine_masks_def List.map_filter_simps)
next
  case (Some m)
  with assms show ?thesis
    by (auto simp: combine_masks_def List.map_filter_simps logical_and_def broadcast_binary_def
        split: if_splits option.splits)
qed

lemma decode_causal_mask_error:
  "decode_causal_mask bs L i = Inl e \<Longrightarrow> e = ValueError ''Incompatible shapes for broadcasting''"
  by (auto simp: decode_causal_mask_def broadcast_to_def split: if_splits)

lemma decode_step_shape_error_cache:
  assumes "fst (decode_step c query key value msk) = Inl (ValueError ''Autoregressive cache shape error'')"
  shows "snd (decode_step c query key value msk) = c"
proof (cases c)
  case None
  then show ?thesis by (simp add: decode_step_def)
next
  case (Some cch)
  show ?thesis
    using assms unfolding Some decode_step_def Let_def
    by (auto split: if_splits sum.splits
        dest: combine_masks_pair_error decode_causal_mask_error)
qed

lemma decode_step_cache:
  "snd (decode_step (Some c) query key value msk) = Some c \<or>
   (\<exists>key' value'. snd (decode_step (Some c) query key value msk) =
        Some \<lparr>cached_key = key', cached_value = value', cache_index = cache_index c + 1\<rparr> \<and>
      shape key' = shape (cached_key c))"
  unfolding decode_step_def Let_def
  by (auto split: if_splits sum.splits dest: dynamic_update_slice_shape)

lemma call_cache:
  "cache (snd (MultiHeadAttention_call self flag inputs_q inputs_k inputs_v msk det rngs)) = cache self \<or>
   (\<exists>query key value.
      cache (snd (MultiHeadAttention_call self flag inputs_q inputs_k inputs_v msk det rngs)) =
        snd (decode_step (cache self) query key value msk))"
proof (cases "project_inputs self inputs_q inputs_k inputs_v")
  case (Inl e)
  then show ?thesis by (simp add: MultiHeadAttention_call_def)
next
  case (Inr qkv)
  obtain query key "value" where qkv: "qkv = (query, key, value)" by (cases qkv) auto
  show ?thesis
  proof (cases "decode self")
    case False
    then show ?thesis by (simp add: MultiHeadAttention_call_def Inr qkv)
  next
    case True
    have "cache (snd (MultiHeadAttention_call self flag inputs_q inputs_k inputs_v msk det rngs)) =
        snd (decode_step (cache self) query key value msk)"
      by (simp add: MultiHeadAttention_call_def Inr qkv True split: prod.splits sum.splits)
    then show ?thesis by blast
  qed
qed

lemma sint_succ:
  fixes x :: "32 word"
  assumes "0 \<le> sint x" and "sint x < 2 ^ 31 - 1"
  shows "sint (x + 1) = sint x + 1"
  using assms by (simp add: sint_word_ariths signed_take_bit_int_eq_self)

subsection \<open>The cache allocated by init_cache\<close>

text \<open>
  C3. \<^verbatim>\<open>init_cache\<close> fills \<^verbatim>\<open>cached_key\<close> and \<^verbatim>\<open>cached_value\<close> with zeros and sets
  \<^verbatim>\<open>cache_index\<close> to 0, but the last axis of the two arrays is \<^verbatim>\<open>features_out\<close>, not the
  depth per head: for two heads on four features the module has \<open>head_dim = 2\<close> and the cache
  for the input shape (1, 4, 4) has shape (1, 4, 2, 4). The decode branch of \<^verbatim>\<open>__call__\<close>
  reads that last axis as \<^verbatim>\<open>depth_per_head\<close>, so the next decode call is refused.
\<close>

theorem init_cache_allocates_features_out:
  "head_dim (projr (example_module 2 4)) = 2 \<and>
   shape (cached_key (the (cache (init_cache (projr (example_module 2 4)) [1, 4, 4])))) = [1, 4, 2, 4] \<and>
   shape (cached_value (the (cache (init_cache (projr (example_module 2 4)) [1, 4, 4])))) = [1, 4, 2, 4] \<and>
   cache_index (the (cache (init_cache (projr (example_module 2 4)) [1, 4, 4]))) = 0 \<and>
   fst (decode_once (init_cache (projr (example_module 2 4)) [1, 4, 4]) (full [1, 1, 4] 1)) =
     Inl (ValueError ''Autoregressive cache shape error'')"
  by (simp add: example_defs)

subsection \<open>Defaulting of the inputs\<close>

text \<open>
  C8. A call with \<^verbatim>\<open>inputs_v\<close> but without \<^verbatim>\<open>inputs_k\<close> raises the usage error and leaves the
  object as it was; a call with only \<^verbatim>\<open>inputs_q\<close> is the call with
  \<^verbatim>\<open>inputs_k = inputs_q, inputs_v = inputs_q\<close>; a call without \<^verbatim>\<open>inputs_v\<close> is the call with
  \<^verbatim>\<open>inputs_v = inputs_k\<close>. Result and final state are equal in each case.
\<close>

theorem call_input_defaulting:
  "MultiHeadAttention_call self flag inputs_q None (Some inputs_v) msk det rngs =
     (Inl (ValueError ''`inputs_k` cannot be None if `inputs_v` is not None.''), self) \<and>
   MultiHeadAttention_call self flag inputs_q None None msk det rngs =
     MultiHeadAttention_call self flag inputs_q (Some inputs_q) (Some inputs_q) msk det rngs \<and>
   MultiHeadAttention_call self flag inputs_q (Some inputs_k) None msk det rngs =
     MultiHeadAttention_call self flag inputs_q (Some inputs_k) (Some inputs_k) msk det rngs"
  by (simp add: MultiHeadAttention_call_def project_inputs_def default_inputs_def)

subsection \<open>The shape check of the decode branch\<close>

text \<open>
  C9. In decode mode the query is validated before the cache is written: when the projected
  query does not have the shape \<^verbatim>\<open>[cached-batch-dims..., 1, num_heads, depth_per_head]\<close> read
  off \<^verbatim>\<open>cached_key\<close>, the call raises the cache shape error and the object, with
  \<^verbatim>\<open>cached_key\<close>, \<^verbatim>\<open>cached_value\<close> and \<^verbatim>\<open>cache_index\<close>, is unchanged; and whenever the decode
  branch ends in this error, the cache attributes are the ones it started with.
\<close>

theorem decode_shape_check_precedes_cache_write:
  "(decode self \<and> cache self = Some c \<and>
    project_inputs self inputs_q inputs_k inputs_v = Inr (query, key, val) \<and>
    shape (cached_key c) = batch_dims @ [max_length, n_heads, depth_per_head] \<and>
    shape query \<noteq> batch_dims @ [1, n_heads, depth_per_head] \<longrightarrow>
      MultiHeadAttention_call self flag inputs_q inputs_k inputs_v msk det rngs =
        (Inl (ValueError ''Autoregressive cache shape error''), self)) \<and>
   (fst (decode_step cch query key val msk) = Inl (ValueError ''Autoregressive cache shape error'')
      \<longrightarrow> snd (decode_step cch query key val msk) = cch)"
proof (intro conjI impI)
  assume a: "decode self \<and> cache self = Some c \<and>
    project_inputs self inputs_q inputs_k inputs_v = Inr (query, key, val) \<and>
    shape (cached_key c) = batch_dims @ [max_length, n_heads, depth_per_head] \<and>
    shape query \<noteq> batch_dims @ [1, n_heads, depth_per_head]"
  then have "decode_step (Some c) query key val msk =
      (Inl (ValueError ''Autoregressive cache shape error''), Some c)"
    by (auto simp: decode_step_def shape_snoc3 Let_def)
  moreover have "self\<lparr>cache := Some c\<rparr> = self" using a by simp
  ultimately show "MultiHeadAttention_call self flag inputs_q inputs_k inputs_v msk det rngs =
        (Inl (ValueError ''Autoregressive cache shape error''), self)"
    using a by (simp add: MultiHeadAttention_call_def)
next
  assume "fst (decode_step cch query key val msk) =
      Inl (ValueError ''Autoregressive cache shape error'')"
  then show "snd (decode_step cch query key val msk) = cch"
    by (rule decode_step_shape_error_cache)
qed

theorem decode_shape_check_precedes_cache_write_witness:
  "MultiHeadAttention_call (example_decoder 4) None (full [2, 1] 1) None None None None None =
     (Inl (ValueError ''Autoregressive cache shape error''), example_decoder 4) \<and>
   fst (decode_step (cache (example_decoder 4)) (full [2, 1, 1] 1) (full [2, 1, 1] 1)
      (full [2, 1, 1] 1) None) = Inl (ValueError ''Autoregressive cache shape error'') \<and>
   snd (decode_step (cache (example_decoder 4)) (full [2, 1, 1] 1) (full [2, 1, 1] 1)
      (full [2, 1, 1] 1) None) = cache (example_decoder 4)"
proof -
  define self where "self = example_decoder 4"
  define c where "c = the (cache self)"
  define q where "q = full [2, 1, 1] (1::real)"
  have dec: "decode self" by (simp add: self_def example_defs)
  have cch: "cache self = Some c" by (simp add: c_def self_def example_defs)
  have proj: "project_inputs self (full [2, 1] 1) None None = Inr (q, q, q)"
    by (simp add: q_def self_def example_defs)
  have ck: "shape (cached_key c) = [] @ [4, 1, 1]" by (simp add: c_def self_def example_defs)
  have q: "shape q \<noteq> [] @ [1, 1, 1]" by (simp add: q_def full_def)
  have err: "fst (decode_step (cache self) q q q None) =
      Inl (ValueError ''Autoregressive cache shape error'')"
    by (simp add: q_def self_def example_defs)
  from decode_shape_check_precedes_cache_write[where self = self and c = c
      and inputs_q = "full [2, 1] 1" and inputs_k = None and inputs_v = None
      and query = q and key = q and val = q and batch_dims = "[]" and max_length = 4
      and n_heads = 1 and depth_per_head = 1 and flag = None and msk = None and det = None
      and rngs = None and cch = "cache self"]
    dec cch proj ck q err
  show ?thesis by (simp add: self_def q_def)
qed

subsection \<open>One decode step\<close>

text \<open>
  C4, as the claim states it, fails once the cache is full. With \<^verbatim>\<open>max_length = 1\<close> the
  first decode call writes position 0 and leaves \<^verbatim>\<open>cache_index = 1\<close>; the second call
  succeeds although the cache has no position 1, and it overwrites position 0, because
  \<^verbatim>\<open>lax.dynamic_update_slice\<close> clamps the start index.
\<close>

theorem decode_write_counterexample:
  "shape (cached_key (the (cache (decode_run (example_decoder 1) [full [1, 1] 5])))) = [1, 1, 1] \<and>
   cache_index (the (cache (decode_run (example_decoder 1) [full [1, 1] 5]))) = 1 \<and>
   elem (cached_key (the (cache (decode_run (example_decoder 1) [full [1, 1] 5])))) [0, 0, 0] = 5 \<and>
   \<not> isl (fst (decode_once (decode_run (example_decoder 1) [full [1, 1] 5]) (full [1, 1] 6))) \<and>
   elem (cached_key (the (cache (decode_run (example_decoder 1) [full [1, 1] 5, full [1, 1] 6]))))
     [0, 0, 0] = 6"
proof -
  have "shape (cached_key (the (cache (decode_run (example_decoder 1) [full [1, 1] 5])))) = [1, 1, 1]"
    by (simp add: example_defs)
  moreover have "cache_index (the (cache (decode_run (example_decoder 1) [full [1, 1] 5]))) = 1"
    by (simp add: example_defs)
  moreover have
    "elem (cached_key (the (cache (decode_run (example_decoder 1) [full [1, 1] 5])))) [0, 0, 0] = 5"
    by (simp add: example_defs)
  moreover have
    "\<not> isl (fst (decode_once (decode_run (example_decoder 1) [full [1, 1] 5]) (full [1, 1] 6)))"
    by (simp add: example_defs)
  moreover have
    "elem (cached_key (the (cache (decode_run (example_decoder 1) [full [1, 1] 5, full [1, 1] 6]))))
       [0, 0, 0] = 6"
    by (simp add: example_defs)
  ultimately show ?thesis by blast
qed

text \<open>
  C4, amended. In decode mode, a successful call with one new position (projected key and
  value of shape \<^verbatim>\<open>[batch..., 1, num_heads, depth]\<close>) made while
  \<open>0 \<le> cache_index < max_length\<close> writes the projected key and value into the cache exactly
  at position \<^verbatim>\<open>cache_index\<close> and leaves every other position as it was, adds 1 to
  \<^verbatim>\<open>cache_index\<close>, and runs the attention on the updated cache with the caller's mask
  combined with a causal mask that admits exactly the positions \<open>\<le>\<close> the one just written.
  The run of three calls on a fresh cache with \<^verbatim>\<open>max_length = 4\<close> shows the indices 1, 2, 3,
  the writes at 0, 1, 2 and the third mask admitting 0, 1, 2 only.
\<close>

theorem decode_call_writes_at_cache_index:
  assumes dec: "decode self" and cch: "cache self = Some c"
    and proj: "project_inputs self inputs_q inputs_k inputs_v = Inr (query, key, val)"
    and ck: "shape (cached_key c) = batch_dims @ [max_length, n_heads, depth_per_head]"
    and cv: "shape (cached_value c) = batch_dims @ [max_length, n_heads, depth_per_head]"
    and k: "shape key = batch_dims @ [1, n_heads, depth_per_head]"
    and v: "shape val = batch_dims @ [1, n_heads, depth_per_head]"
    and lo: "0 \<le> sint (cache_index c)" and hi: "sint (cache_index c) < int max_length"
    and ok: "MultiHeadAttention_call self flag inputs_q inputs_k inputs_v msk det rngs
               = (Inr out, self')"
  shows "\<exists>c' causal msk'.
     cache self' = Some c' \<and> cache_index c' = cache_index c + 1 \<and>
     shape (cached_key c') = shape (cached_key c) \<and>
     shape (cached_value c') = shape (cached_value c) \<and>
     (\<forall>b p h d. in_bounds (b @ [p, h, d]) (shape (cached_key c)) \<longrightarrow>
        elem (cached_key c') (b @ [p, h, d]) =
          (if int p = sint (cache_index c) then elem key (b @ [0, h, d])
           else elem (cached_key c) (b @ [p, h, d])) \<and>
        elem (cached_value c') (b @ [p, h, d]) =
          (if int p = sint (cache_index c) then elem val (b @ [0, h, d])
           else elem (cached_value c) (b @ [p, h, d]))) \<and>
     shape causal = batch_dims @ [1, 1, max_length] \<and>
     (\<forall>b p. in_bounds (b @ [0, 0, p]) (shape causal) \<longrightarrow>
        elem causal (b @ [0, 0, p]) = (if int p \<le> sint (cache_index c) then 1 else 0)) \<and>
     combine_masks [msk, Some causal] = Inr (Some msk') \<and>
     attend self' flag query (cached_key c') (cached_value c') (Some msk') det rngs = Inr out"
proof -
  have call: "MultiHeadAttention_call self flag inputs_q inputs_k inputs_v msk det rngs =
      (case decode_step (Some c) query key val msk of
         (Inl e, c1) \<Rightarrow> (Inl e, self\<lparr>cache := c1\<rparr>)
       | (Inr (key', value', msk'), c1) \<Rightarrow>
           (attend (self\<lparr>cache := c1\<rparr>) flag query key' value' msk' det rngs,
            self\<lparr>cache := c1\<rparr>))"
    by (simp add: MultiHeadAttention_call_def proj dec cch)
  have q: "shape query = batch_dims @ [1, n_heads, depth_per_head]"
  proof (rule ccontr)
    assume "shape query \<noteq> batch_dims @ [1, n_heads, depth_per_head]"
    then have "decode_step (Some c) query key val msk =
        (Inl (ValueError ''Autoregressive cache shape error''), Some c)"
      by (simp add: decode_step_def ck shape_snoc3 Let_def)
    with ok call show False by simp
  qed
  from dynamic_update_slice_position[OF ck k lo hi] obtain key' where
    key': "dynamic_update_slice (cached_key c) key
             (replicate (length batch_dims) 0 @ [sint (cache_index c), 0, 0]) = Inr key'"
    and key'_shape: "shape key' = shape (cached_key c)"
    and key'_elem: "\<forall>b p h d. in_bounds (b @ [p, h, d]) (shape (cached_key c)) \<longrightarrow>
        elem key' (b @ [p, h, d]) =
          (if int p = sint (cache_index c) then elem key (b @ [0, h, d])
           else elem (cached_key c) (b @ [p, h, d]))"
    by blast
  from dynamic_update_slice_position[OF cv v lo hi] obtain value' where
    value': "dynamic_update_slice (cached_value c) val
             (replicate (length batch_dims) 0 @ [sint (cache_index c), 0, 0]) = Inr value'"
    and value'_shape: "shape value' = shape (cached_value c)"
    and value'_elem: "\<forall>b p h d. in_bounds (b @ [p, h, d]) (shape (cached_value c)) \<longrightarrow>
        elem value' (b @ [p, h, d]) =
          (if int p = sint (cache_index c) then elem val (b @ [0, h, d])
           else elem (cached_value c) (b @ [p, h, d]))"
    by blast
  from decode_causal_mask_entries[of batch_dims max_length "sint (cache_index c)"]
  obtain causal where
    causal: "decode_causal_mask batch_dims max_length (sint (cache_index c)) = Inr causal"
    and causal_shape: "shape causal = batch_dims @ [1, 1, max_length]"
    and causal_elem: "\<forall>b p. in_bounds (b @ [0, 0, p]) (shape causal) \<longrightarrow>
        elem causal (b @ [0, 0, p]) = (if int p \<le> sint (cache_index c) then 1 else 0)"
    by blast
  define c' where
    "c' = \<lparr>cached_key = key', cached_value = value', cache_index = cache_index c + 1\<rparr>"
  have step: "decode_step (Some c) query key val msk =
       (case combine_masks [msk, Some causal] of
          Inl e \<Rightarrow> Inl e
        | Inr msk' \<Rightarrow> Inr (key', value', msk'),
        Some c')"
    using decode_step_in_range[OF ck cv q k v lo hi, of msk] key' value' causal
    by (auto simp: c'_def)
  obtain m0 where m0: "combine_masks [msk, Some causal] = Inr m0"
    using ok call step by (cases "combine_masks [msk, Some causal]") simp_all
  obtain msk' where msk': "m0 = Some msk'"
    using m0 by (cases msk) (auto simp: combine_masks_def List.map_filter_simps
        split: if_splits sum.splits)
  have self': "self' = self\<lparr>cache := Some c'\<rparr>"
    and out: "attend self' flag query key' value' (Some msk') det rngs = Inr out"
    using ok call step m0 msk' by auto
  have cv_eq: "shape (cached_value c) = shape (cached_key c)" using ck cv by simp
  show ?thesis
    apply (rule exI[of _ c'], rule exI[of _ causal], rule exI[of _ msk'])
    using key'_shape value'_shape key'_elem value'_elem causal_shape causal_elem m0 msk' out
    by (simp add: self' c'_def cv_eq)
qed

theorem decode_call_writes_at_cache_index_witness:
  "cache_index (the (cache (decode_run (example_decoder 4) [full [1, 1] 5]))) = 1 \<and>
   cache_index (the (cache (decode_run (example_decoder 4) [full [1, 1] 5, full [1, 1] 6]))) = 2 \<and>
   cache_index (the (cache
      (decode_run (example_decoder 4) [full [1, 1] 5, full [1, 1] 6, full [1, 1] 7]))) = 3 \<and>
   map (\<lambda>p. elem (cached_key (the (cache
      (decode_run (example_decoder 4) [full [1, 1] 5, full [1, 1] 6, full [1, 1] 7])))) [p, 0, 0])
     [0, 1, 2, 3] = [5, 6, 7, 0] \<and>
   (\<exists>causal msk'. shape causal = [1, 1, 4] \<and>
      map (\<lambda>p. elem causal [0, 0, p]) [0, 1, 2, 3] = [1, 1, 1, 0] \<and>
      combine_masks [None, Some causal] = Inr (Some msk') \<and>
      attend (decode_run (example_decoder 4) [full [1, 1] 5, full [1, 1] 6, full [1, 1] 7]) None
        (full [1, 1, 1] 7)
        (cached_key (the (cache
           (decode_run (example_decoder 4) [full [1, 1] 5, full [1, 1] 6, full [1, 1] 7]))))
        (cached_value (the (cache
           (decode_run (example_decoder 4) [full [1, 1] 5, full [1, 1] 6, full [1, 1] 7]))))
        (Some msk') None None
      = fst (decode_once (decode_run (example_decoder 4) [full [1, 1] 5, full [1, 1] 6])
          (full [1, 1] 7)))"
proof -
  define self where "self = decode_run (example_decoder 4) [full [1, 1] 5, full [1, 1] 6]"
  define c where "c = the (cache self)"
  define q where "q = full [1, 1, 1] (7::real)"
  define r where "r = decode_once self (full [1, 1] 7)"
  have i1: "cache_index (the (cache (decode_run (example_decoder 4) [full [1, 1] 5]))) = 1"
    by (simp add: example_defs)
  have dec: "decode self" by (simp add: self_def example_defs)
  have cch: "cache self = Some c" by (simp add: c_def self_def example_defs)
  have proj: "project_inputs self (full [1, 1] 7) None None = Inr (q, q, q)"
    by (simp add: q_def self_def example_defs)
  have ck: "shape (cached_key c) = [] @ [4, 1, 1]" by (simp add: c_def self_def example_defs)
  have cv: "shape (cached_value c) = [] @ [4, 1, 1]" by (simp add: c_def self_def example_defs)
  have k: "shape q = [] @ [1, 1, 1]" by (simp add: q_def full_def)
  have idx: "cache_index c = 2" by (simp add: c_def self_def example_defs)
  have lo: "0 \<le> sint (cache_index c)" and hi: "sint (cache_index c) < int 4"
    by (simp_all add: idx)
  have old: "elem (cached_key c) [0, 0, 0] = 5" "elem (cached_key c) [1, 0, 0] = 6"
    "elem (cached_key c) [3, 0, 0] = 0"
    by (simp_all add: c_def self_def example_defs)
  have "\<not> isl (fst r)" by (simp add: r_def self_def example_defs)
  then have ok: "MultiHeadAttention_call self None (full [1, 1] 7) None None None None None =
      (Inr (projr (fst r)), snd r)"
    by (simp add: r_def decode_once_def)
  from decode_call_writes_at_cache_index[OF dec cch proj ck cv k k lo hi ok]
  obtain c' causal msk' where
    c': "cache (snd r) = Some c'" and i3: "cache_index c' = cache_index c + 1"
    and el: "\<forall>b p h d. in_bounds (b @ [p, h, d]) (shape (cached_key c)) \<longrightarrow>
        elem (cached_key c') (b @ [p, h, d]) =
          (if int p = sint (cache_index c) then elem q (b @ [0, h, d])
           else elem (cached_key c) (b @ [p, h, d]))"
    and cs: "shape causal = [] @ [1, 1, 4]"
    and ce: "\<forall>b p. in_bounds (b @ [0, 0, p]) (shape causal) \<longrightarrow>
        elem causal (b @ [0, 0, p]) = (if int p \<le> sint (cache_index c) then 1 else 0)"
    and cm: "combine_masks [None, Some causal] = Inr (Some msk')"
    and at: "attend (snd r) None q (cached_key c') (cached_value c') (Some msk') None None
        = Inr (projr (fst r))"
    by blast
  have run: "decode_run (example_decoder 4) [full [1, 1] 5, full [1, 1] 6, full [1, 1] 7] = snd r"
    by (simp add: r_def self_def)
  have keys: "elem (cached_key c') [p, 0, 0] =
      (if int p = 2 then 7 else elem (cached_key c) [p, 0, 0])" if "p < 4" for p
    using el[rule_format, of "[]" p 0 0] that by (simp add: ck in_bounds_def idx q_def full_def)
  have msks: "elem causal [0, 0, p] = (if int p \<le> 2 then 1 else 0)" if "p < 4" for p
    using ce[rule_format, of "[]" p] that by (simp add: cs in_bounds_def idx)
  have fst_r: "fst r = Inr (projr (fst r))"
    using \<open>\<not> isl (fst r)\<close> by (cases "fst r") simp_all
  have "cache_index (the (cache (decode_run (example_decoder 4) [full [1, 1] 5, full [1, 1] 6]))) = 2"
    using idx by (simp add: c_def self_def)
  moreover have "cache_index (the (cache (snd r))) = 3"
    by (simp add: c' i3 idx)
  moreover have "map (\<lambda>p. elem (cached_key (the (cache (snd r)))) [p, 0, 0]) [0, 1, 2, 3]
      = [5, 6, 7, 0]"
    using old by (simp add: c' keys)
  moreover have "shape causal = [1, 1, 4] \<and>
      map (\<lambda>p. elem causal [0, 0, p]) [0, 1, 2, 3] = [1, 1, 1, 0] \<and>
      combine_masks [None, Some causal] = Inr (Some msk') \<and>
      attend (snd r) None (full [1, 1, 1] 7) (cached_key (the (cache (snd r))))
        (cached_value (the (cache (snd r)))) (Some msk') None None = fst r"
    using cs cm at fst_r by (simp add: msks c' q_def)
  ultimately show ?thesis
    unfolding run using i1 by (auto simp: r_def self_def)
qed

subsection \<open>The invariant of the cache index\<close>

text \<open>
  C5, as the claim states it, fails at the capacity: a cache with \<^verbatim>\<open>max_length = 1\<close> and
  \<^verbatim>\<open>cache_index = 1\<close> satisfies the invariant, the next decode call succeeds, and then
  \<^verbatim>\<open>cache_index = 2\<close> exceeds \<^verbatim>\<open>max_length\<close>.
\<close>

theorem cache_invariant_counterexample:
  "cache_invariant (the (cache (decode_run (example_decoder 1) [full [1, 1] 5]))) \<and>
   \<not> isl (fst (decode_once (decode_run (example_decoder 1) [full [1, 1] 5]) (full [1, 1] 6))) \<and>
   cache_max_length
     (the (cache (snd (decode_once (decode_run (example_decoder 1) [full [1, 1] 5]) (full [1, 1] 6)))))
     = 1 \<and>
   sint (cache_index
     (the (cache (snd (decode_once (decode_run (example_decoder 1) [full [1, 1] 5]) (full [1, 1] 6))))))
     = 2 \<and>
   \<not> cache_invariant
     (the (cache (snd (decode_once (decode_run (example_decoder 1) [full [1, 1] 5]) (full [1, 1] 6)))))"
proof -
  have "cache_invariant (the (cache (decode_run (example_decoder 1) [full [1, 1] 5])))"
    by (simp add: example_defs cache_invariant_def cache_max_length_def)
  moreover have
    "\<not> isl (fst (decode_once (decode_run (example_decoder 1) [full [1, 1] 5]) (full [1, 1] 6)))"
    by (simp add: example_defs)
  moreover have len: "cache_max_length
     (the (cache (snd (decode_once (decode_run (example_decoder 1) [full [1, 1] 5]) (full [1, 1] 6)))))
     = 1"
    by (simp add: example_defs cache_max_length_def)
  moreover have idx: "sint (cache_index
     (the (cache (snd (decode_once (decode_run (example_decoder 1) [full [1, 1] 5]) (full [1, 1] 6))))))
     = 2"
    by (simp add: example_defs)
  moreover have "\<not> cache_invariant
     (the (cache (snd (decode_once (decode_run (example_decoder 1) [full [1, 1] 5]) (full [1, 1] 6)))))"
    unfolding cache_invariant_def len idx by simp
  ultimately show ?thesis by blast
qed

text \<open>
  C5, amended. The invariant \<open>0 \<le> cache_index \<le> max_length\<close> holds after \<^verbatim>\<open>init_cache\<close>,
  and every call made in a state that satisfies it with \<open>cache_index < max_length\<close> (and
  \<open>max_length < 2^31\<close>, so that the 32-bit index cannot wrap) ends in a state that satisfies
  it, with the same \<open>max_length\<close>, whether the call returns or raises.
\<close>

theorem cache_invariant_below_capacity:
  "cache_invariant (the (cache (init_cache self input_shape))) \<and>
   (cache self = Some c \<and> cache_invariant c \<and>
    sint (cache_index c) < int (cache_max_length c) \<and> cache_max_length c < 2 ^ 31 \<longrightarrow>
      (\<exists>c'. cache (snd (MultiHeadAttention_call self flag inputs_q inputs_k inputs_v msk det rngs))
              = Some c' \<and>
            cache_invariant c' \<and> cache_max_length c' = cache_max_length c))"
proof (intro conjI impI)
  show "cache_invariant (the (cache (init_cache self input_shape)))"
    by (simp add: init_cache_def cache_invariant_def Let_def)
next
  assume a: "cache self = Some c \<and> cache_invariant c \<and>
    sint (cache_index c) < int (cache_max_length c) \<and> cache_max_length c < 2 ^ 31"
  then have lo: "0 \<le> sint (cache_index c)" and hi: "sint (cache_index c) < int (cache_max_length c)"
    and cap: "int (cache_max_length c) < 2 ^ 31"
    by (simp_all add: cache_invariant_def)
  have succ: "sint (cache_index c + 1) = sint (cache_index c) + 1"
    using lo hi cap by (intro sint_succ) simp_all
  let ?after = "cache (snd (MultiHeadAttention_call self flag inputs_q inputs_k inputs_v msk det rngs))"
  from call_cache[of self flag inputs_q inputs_k inputs_v msk det rngs]
  consider "?after = Some c"
    | key' value' where
      "?after = Some \<lparr>cached_key = key', cached_value = value', cache_index = cache_index c + 1\<rparr>"
      "shape key' = shape (cached_key c)"
    using a decode_step_cache[of c _ _ _ msk] by (metis (no_types, lifting))
  then show "\<exists>c'. ?after = Some c' \<and> cache_invariant c' \<and> cache_max_length c' = cache_max_length c"
  proof cases
    case 1
    then show ?thesis using a by simp
  next
    case 2
    then show ?thesis
      using lo hi succ by (simp add: cache_invariant_def cache_max_length_def ndim_def)
  qed
qed

theorem cache_invariant_below_capacity_witness:
  "cache_invariant (the (cache (example_decoder 4))) \<and>
   sint (cache_index (the (cache (example_decoder 4))))
     < int (cache_max_length (the (cache (example_decoder 4)))) \<and>
   cache_max_length (the (cache (example_decoder 4))) < 2 ^ 31 \<and>
   cache_invariant (the (cache (snd (decode_once (example_decoder 4) (full [1, 1] 5))))) \<and>
   cache_max_length (the (cache (snd (decode_once (example_decoder 4) (full [1, 1] 5))))) = 4"
proof -
  define self where "self = example_decoder 4"
  define c where "c = the (cache self)"
  have cch: "cache self = Some c" by (simp add: c_def self_def example_defs)
  have len: "cache_max_length c = 4"
    by (simp add: c_def self_def example_defs cache_max_length_def)
  have idx: "sint (cache_index c) = 0" by (simp add: c_def self_def example_defs)
  have inv: "cache_invariant c" by (simp add: cache_invariant_def len idx)
  from cache_invariant_below_capacity[of self "[4, 1]" c None "full [1, 1] 5" None None None None None]
    cch inv len idx
  obtain c' where "cache (snd (decode_once self (full [1, 1] 5))) = Some c'"
    and "cache_invariant c'" and "cache_max_length c' = 4"
    by (auto simp: decode_once_def)
  then show ?thesis
    using inv len idx by (simp add: self_def c_def)
qed

end
